theory Spec2Isabelle
  imports Complex_Main "HOL-Library.Stream" "HOL-Library.Word"
begin

section \<open>Data model\<close>

text \<open>
  The program is one translation unit, \<^verbatim>\<open>main.cpp\<close>: a global struct \<^verbatim>\<open>CameraApp app\<close>, two
  capability probes, three GUI callbacks and \<^verbatim>\<open>main\<close>. Everything outside it (the capture
  device, the image library, the GUI toolkit, the clock, the file system, the C++ heap) is
  modelled as an environment:
  \<^item> what the environment answers is read from streams, one element per call, in call order;
  \<^item> what the program asks of it is appended to a trace of events, one per library call.
  A \<^verbatim>\<open>double\<close> is modelled by the real number it denotes (finite values, no rounding); the
  only comparison of doubles in the program, \<^verbatim>\<open>std::abs(actual_fps - fps) < 1.0\<close>, has
  candidates between 10 and 60, where a difference below 1 is computed without rounding,
  so the comparison on reals decides as the one on doubles does.
\<close>

subsection \<open>Images: \<^verbatim>\<open>cv::Mat\<close> of type \<^verbatim>\<open>CV_8UC3\<close>\<close>

type_synonym uchar = "8 word"
type_synonym pixel = "uchar \<times> uchar \<times> uchar"

text \<open>
  \<open>data\<close> is the buffer the header points to: \<open>None\<close> is the null pointer of a
  default-constructed matrix, \<open>Some f\<close> a buffer whose pixel at linear index \<open>i\<close> is \<open>f i\<close>.
\<close>

record Mat =
  rows :: int
  cols :: int
  data :: "(nat \<Rightarrow> pixel) option"

definition Mat_default :: Mat where
  "Mat_default = \<lparr>rows = 0, cols = 0, data = None\<rparr>"

text \<open>\<^verbatim>\<open>Mat::empty()\<close>: \<^verbatim>\<open>data == 0 || total() == 0\<close>.\<close>

definition Mat_empty :: "Mat \<Rightarrow> bool" where
  "Mat_empty m = (data m = None \<or> rows m * cols m = 0)"

text \<open>
  \<^verbatim>\<open>Mat::create(rows, cols, CV_8UC3)\<close>: nothing happens when the matrix already has that
  shape; otherwise a new buffer is allocated, whose contents \<open>fresh\<close> are whatever the
  allocator hands out.
\<close>

definition Mat_create :: "(nat \<Rightarrow> pixel) \<Rightarrow> int \<Rightarrow> int \<Rightarrow> Mat \<Rightarrow> Mat" where
  "Mat_create fresh h w m =
     (if rows m = h \<and> cols m = w \<and> data m \<noteq> None then m
      else \<lparr>rows = h, cols = w, data = Some fresh\<rparr>)"

text \<open>
  \<^verbatim>\<open>cv::cvtColor\<close> with \<^verbatim>\<open>COLOR_BGR2RGB\<close> or \<^verbatim>\<open>COLOR_RGB2BGR\<close>: both exchange the
  first and the third channel of every pixel and keep the shape.
\<close>

fun swap_rb :: "pixel \<Rightarrow> pixel" where
  "swap_rb (c0, c1, c2) = (c2, c1, c0)"

definition cvtColor :: "Mat \<Rightarrow> Mat" where
  "cvtColor src = src\<lparr>data := map_option (\<lambda>f. swap_rb \<circ> f) (data src)\<rparr>"

text \<open>\<^verbatim>\<open>src.copyTo(dst)\<close>: \<open>dst\<close> gets the shape and a full copy of the pixels of \<open>src\<close>.\<close>

definition copyTo :: "Mat \<Rightarrow> Mat" where
  "copyTo src = src"

subsection \<open>Events, faults and the state of the run\<close>

datatype cap_prop =
    CAP_PROP_FRAME_WIDTH
  | CAP_PROP_FRAME_HEIGHT
  | CAP_PROP_FPS
  | CAP_PROP_AUTO_EXPOSURE
  | CAP_PROP_AUTOFOCUS

text \<open>
  The dialogs of the program, named after what their (Chinese) text says. \<^verbatim>\<open>fl_alert\<close>
  is called at lines 72, 90, 100, 107 and 158 of \<^verbatim>\<open>main.cpp\<close>, in this order.
\<close>

datatype alert =
    Screenshot_failed_no_image
  | Screenshot_failed_not_saved
  | Camera_error_grab
  | Camera_error_decode
  | Init_failed

datatype event =
    Cap_open
  | Cap_set cap_prop real
  | Cap_get cap_prop
  | Cap_grab
  | Cap_retrieve
  | Cap_release
  | Fl_alert alert
  | Fl_message_title
  | Fl_message string
  | Clock_now
  | Imwrite string Mat
  | New_image nat int int
  | Delete_image nat
  | Box_image "nat option"
  | Box_redraw
  | Window_redraw
  | Fl_flush
  | Add_timeout real
  | Repeat_timeout "real option"
  | Window_create int int
  | Box_create int int
  | Window_show
  | Window_hide

text \<open>
  How a function of the program can end other than by returning: \<^verbatim>\<open>main\<close> returning an
  exit code before the event loop, a \<^verbatim>\<open>cv::Exception\<close> nobody catches, a conversion of a
  \<^verbatim>\<open>double\<close> that does not fit \<^verbatim>\<open>int\<close>, \<^verbatim>\<open>delete\<close> of an object that is not live.
\<close>

datatype stop =
    Exit int
  | Cv_exception
  | Cast_out_of_range
  | Double_free

record VideoCapture =
  open_ok :: bool
  opened :: bool
  readback :: "cap_prop \<Rightarrow> real stream"
  grabbed :: "bool stream"
  retrieved :: "(bool \<times> Mat) stream"

record Fl_Box =
  box_image :: "nat option"

record Fl_Window =
  shown :: bool

record CameraApp =
  cap :: VideoCapture
  frame :: Mat
  frame_rgb :: Mat
  cached_frame :: Mat
  fltk_img :: "nat option"
  display_box :: Fl_Box
  window :: Fl_Window
  is_running :: bool
  optimal_width :: int
  optimal_height :: int
  optimal_fps :: real

text \<open>
  The callbacks run only after \<^verbatim>\<open>main\<close> has created the window and the box, so the
  pointers \<^verbatim>\<open>app.window\<close> and \<^verbatim>\<open>app.display_box\<close> are modelled by the objects themselves.
  \<^verbatim>\<open>app.fltk_img\<close> is an address or null (\<open>None\<close>).

  The whole state: the fields of \<^verbatim>\<open>app\<close>, then the environment. \<open>heap\<close> maps the address
  of every live \<^verbatim>\<open>Fl_RGB_Image\<close> to its width and height; \<open>next_addr\<close> is the address the
  next \<^verbatim>\<open>new\<close> returns; \<open>junk\<close> are the contents of the buffers that \<^verbatim>\<open>Mat::create\<close>
  allocates; \<open>inter_linear\<close> is the resampling of \<^verbatim>\<open>cv::resize\<close>.
\<close>

record machine = CameraApp +
  trace :: "event list"
  heap :: "nat \<Rightarrow> (int \<times> int) option"
  next_addr :: nat
  imwrite_ok :: "bool stream"
  clock :: "int stream"
  junk :: "(nat \<Rightarrow> pixel) stream"
  inter_linear :: "Mat \<Rightarrow> int \<Rightarrow> int \<Rightarrow> nat \<Rightarrow> pixel"

text \<open>
  \<^verbatim>\<open>cv::resize(src, dst, Size(w, h))\<close> with the default interpolation \<open>il\<close>: the result has
  \<open>h\<close> rows and \<open>w\<close> columns; an empty source or an empty size is an assertion failure,
  thrown as \<^verbatim>\<open>cv::Exception\<close>.
\<close>

definition resize :: "(Mat \<Rightarrow> int \<Rightarrow> int \<Rightarrow> nat \<Rightarrow> pixel) \<Rightarrow> Mat \<Rightarrow> int \<Rightarrow> int \<Rightarrow> stop + Mat" where
  "resize il src w h =
     (if Mat_empty src \<or> w \<le> 0 \<or> h \<le> 0 then Inl Cv_exception
      else Inr \<lparr>rows = h, cols = w, data = Some (il src w h)\<rparr>)"

text \<open>
  The global \<^verbatim>\<open>app\<close> as its default member initialisers leave it, in an environment
  that has answered nothing yet.
\<close>

definition app_initial ::
  "VideoCapture \<Rightarrow> bool stream \<Rightarrow> int stream \<Rightarrow> (nat \<Rightarrow> pixel) stream \<Rightarrow>
     (Mat \<Rightarrow> int \<Rightarrow> int \<Rightarrow> nat \<Rightarrow> pixel) \<Rightarrow> machine" where
  "app_initial dev wr clk jk il =
     \<lparr>cap = dev, frame = Mat_default, frame_rgb = Mat_default, cached_frame = Mat_default,
      fltk_img = None, display_box = \<lparr>box_image = None\<rparr>, window = \<lparr>shown = False\<rparr>,
      is_running = True, optimal_width = 640, optimal_height = 480, optimal_fps = 30,
      trace = [], heap = Map.empty, next_addr = 1,
      imwrite_ok = wr, clock = clk, junk = jk, inter_linear = il\<rparr>"

definition emit :: "event list \<Rightarrow> machine \<Rightarrow> machine" where
  "emit es s = s\<lparr>trace := trace s @ es\<rparr>"

section \<open>The capture device\<close>

text \<open>\<^verbatim>\<open>cap.set(p, v)\<close>: the request is recorded; its boolean result is ignored by the program.\<close>

definition cap_set :: "cap_prop \<Rightarrow> real \<Rightarrow> machine \<Rightarrow> machine" where
  "cap_set p v s = emit [Cap_set p v] s"

text \<open>\<^verbatim>\<open>cap.get(p)\<close>: the next read-back of property \<open>p\<close>.\<close>

definition cap_get :: "cap_prop \<Rightarrow> machine \<Rightarrow> real \<times> machine" where
  "cap_get p s =
     (shd (readback (cap s) p),
      emit [Cap_get p]
        (s\<lparr>cap := (cap s)\<lparr>readback := (readback (cap s))(p := stl (readback (cap s) p))\<rparr>\<rparr>))"

text \<open>\<^verbatim>\<open>cap.open(0, cv::CAP_ANY)\<close>, \<^verbatim>\<open>cap.grab()\<close>, \<^verbatim>\<open>cap.retrieve(app.frame)\<close>, \<^verbatim>\<open>cap.release()\<close>.\<close>

definition cap_open :: "machine \<Rightarrow> machine" where
  "cap_open s = emit [Cap_open] (s\<lparr>cap := (cap s)\<lparr>opened := open_ok (cap s)\<rparr>\<rparr>)"

definition cap_grab :: "machine \<Rightarrow> bool \<times> machine" where
  "cap_grab s =
     (shd (grabbed (cap s)),
      emit [Cap_grab] (s\<lparr>cap := (cap s)\<lparr>grabbed := stl (grabbed (cap s))\<rparr>\<rparr>))"

text \<open>
  The device answers a \<^verbatim>\<open>retrieve\<close> with its result and with what it leaves in the
  matrix it was given, whether it succeeded or not.
\<close>

definition cap_retrieve :: "machine \<Rightarrow> bool \<times> machine" where
  "cap_retrieve s =
     (fst (shd (retrieved (cap s))),
      emit [Cap_retrieve]
        (s\<lparr>cap := (cap s)\<lparr>retrieved := stl (retrieved (cap s))\<rparr>,
           frame := snd (shd (retrieved (cap s)))\<rparr>))"

definition cap_release :: "machine \<Rightarrow> machine" where
  "cap_release s = emit [Cap_release] (s\<lparr>cap := (cap s)\<lparr>opened := False\<rparr>\<rparr>)"

section \<open>Capability Prober\<close>

subsection \<open>\<^verbatim>\<open>detect_resolutions\<close>\<close>

text \<open>
  \<^verbatim>\<open>static_cast<int>\<close> of a \<^verbatim>\<open>double\<close>: the fraction is discarded (truncation toward
  zero); the behaviour is undefined when the result does not fit a 32-bit \<^verbatim>\<open>int\<close>.
\<close>

definition static_cast_int :: "real \<Rightarrow> int option" where
  "static_cast_int x =
     (let t = (if 0 \<le> x then \<lfloor>x\<rfloor> else \<lceil>x\<rceil>)
      in if - 2147483648 \<le> t \<and> t \<le> 2147483647 then Some t else None)"

definition resolutions :: "(int \<times> int) list" where
  "resolutions =
     [(3840, 2160), (2560, 1440), (1920, 1080),
      (1280, 720), (1280, 960), (800, 600), (640, 480)]"

text \<open>The \<^verbatim>\<open>for\<close> loop of \<^verbatim>\<open>detect_resolutions\<close> over the candidates still to try.\<close>

fun detect_resolutions_loop :: "(int \<times> int) list \<Rightarrow> machine \<Rightarrow> stop + machine" where
  "detect_resolutions_loop [] s = Inr s"
| "detect_resolutions_loop (res # rest) s =
     (let s1 = cap_set CAP_PROP_FRAME_WIDTH (of_int (fst res)) s;
          s2 = cap_set CAP_PROP_FRAME_HEIGHT (of_int (snd res)) s1;
          (w, s3) = cap_get CAP_PROP_FRAME_WIDTH s2
      in case static_cast_int w of
           None \<Rightarrow> Inl Cast_out_of_range
         | Some actual_w \<Rightarrow>
             (let (h, s4) = cap_get CAP_PROP_FRAME_HEIGHT s3
              in case static_cast_int h of
                   None \<Rightarrow> Inl Cast_out_of_range
                 | Some actual_h \<Rightarrow>
                     if actual_w = fst res \<and> actual_h = snd res
                     then Inr (s4\<lparr>optimal_width := actual_w, optimal_height := actual_h\<rparr>)
                     else detect_resolutions_loop rest s4))"

definition detect_resolutions :: "machine \<Rightarrow> stop + machine" where
  "detect_resolutions s = detect_resolutions_loop resolutions s"

subsection \<open>\<^verbatim>\<open>detect_fps\<close>\<close>

definition fps_candidates :: "real list" where
  "fps_candidates = [60, 50, 30, 25, 24, 15, 10]"

text \<open>
  The \<^verbatim>\<open>for\<close> loop of \<^verbatim>\<open>detect_fps\<close> over the candidates still to try. The boolean
  says whether the loop left the function through its \<^verbatim>\<open>return\<close>.
\<close>

fun detect_fps_loop :: "real list \<Rightarrow> machine \<Rightarrow> bool \<times> machine" where
  "detect_fps_loop [] s = (False, s)"
| "detect_fps_loop (fps # rest) s =
     (let s1 = cap_set CAP_PROP_FPS fps s;
          (actual_fps, s2) = cap_get CAP_PROP_FPS s1
      in if \<bar>actual_fps - fps\<bar> < 1.0
         then (True, s2\<lparr>optimal_fps := actual_fps\<rparr>)
         else detect_fps_loop rest s2)"

definition detect_fps :: "machine \<Rightarrow> machine" where
  "detect_fps s =
     (case detect_fps_loop fps_candidates s of
        (True, s') \<Rightarrow> s'
      | (False, s') \<Rightarrow>
          (let (v, s'') = cap_get CAP_PROP_FPS s' in s''\<lparr>optimal_fps := v\<rparr>))"

section \<open>Snapshot Exporter\<close>

text \<open>\<^verbatim>\<open>std::to_string\<close> of a \<^verbatim>\<open>time_t\<close>: the decimal digits, after a minus sign if negative.\<close>

definition digit_char :: "nat \<Rightarrow> char" where
  "digit_char d = ''0123456789'' ! d"

fun to_string_nat :: "nat \<Rightarrow> string" where
  "to_string_nat n =
     (if n < 10 then [digit_char n]
      else to_string_nat (n div 10) @ [digit_char (n mod 10)])"

declare to_string_nat.simps [simp del]

definition to_string :: "int \<Rightarrow> string" where
  "to_string i =
     (if i < 0 then CHR ''-'' # to_string_nat (nat (- i)) else to_string_nat (nat i))"

text \<open>
  \<open>Fl_message_title\<close> is the title set at line 86; \<open>Fl_message name\<close> is the dialog of
  line 87, whose format string takes the file name as its only argument.
\<close>

definition screenshot_callback :: "machine \<Rightarrow> machine" where
  "screenshot_callback s =
     (if Mat_empty (cached_frame s) then emit [Fl_alert Screenshot_failed_no_image] s
      else
        let now_time = shd (clock s);
            s1 = emit [Clock_now] (s\<lparr>clock := stl (clock s)\<rparr>);
            filename = ''screenshot_'' @ to_string now_time @ ''.png'';
            bgr_frame = cvtColor (cached_frame s1);
            written = shd (imwrite_ok s1);
            s2 = emit [Imwrite filename bgr_frame] (s1\<lparr>imwrite_ok := stl (imwrite_ok s1)\<rparr>)
        in if written then emit [Fl_message_title, Fl_message filename] s2
           else emit [Fl_alert Screenshot_failed_not_saved] s2)"

section \<open>Frame Pump and Shell\<close>

text \<open>
  The three lines that \<^verbatim>\<open>update_frame\<close> (122 to 125) and \<^verbatim>\<open>window_close_callback\<close>
  (147 to 150) share: if \<^verbatim>\<open>app.fltk_img\<close> is not null, detach it from the box and
  \<^verbatim>\<open>delete\<close> it. The pointer itself is not written.
\<close>

definition delete_fltk_img :: "machine \<Rightarrow> stop + machine" where
  "delete_fltk_img s =
     (case fltk_img s of
        None \<Rightarrow> Inr s
      | Some p \<Rightarrow>
          (let s1 = emit [Box_image None] (s\<lparr>display_box := (display_box s)\<lparr>box_image := None\<rparr>\<rparr>)
           in if heap s1 p = None then Inl Double_free
              else Inr (emit [Delete_image p] (s1\<lparr>heap := (heap s1)(p := None)\<rparr>))))"

text \<open>\<^verbatim>\<open>1.0 / app.optimal_fps\<close>: no finite value when the divisor is zero.\<close>

definition reciprocal :: "real \<Rightarrow> real option" where
  "reciprocal x = (if x = 0 then None else Some (1 / x))"

definition update_frame :: "machine \<Rightarrow> stop + machine" where
  "update_frame s =
     (if \<not> is_running s then Inr s
      else
        let (grab_ok, s1) = cap_grab s in
        if \<not> grab_ok
        then Inr ((emit [Fl_alert Camera_error_grab] s1)\<lparr>is_running := False\<rparr>)
        else
          let (retrieve_ok, s2) = cap_retrieve s1 in
          if \<not> retrieve_ok
          then Inr ((emit [Fl_alert Camera_error_decode] s2)\<lparr>is_running := False\<rparr>)
          else
            case resize (inter_linear s2) (frame s2) (optimal_width s2) (optimal_height s2) of
              Inl e \<Rightarrow> Inl e
            | Inr resized \<Rightarrow>
                let s3 = s2\<lparr>frame := resized\<rparr>;
                    s4 = s3\<lparr>frame_rgb := cvtColor (frame s3)\<rparr>;
                    s5 = s4\<lparr>cached_frame := copyTo (frame_rgb s4)\<rparr>
                in (case delete_fltk_img s5 of
                     Inl e \<Rightarrow> Inl e
                   | Inr s6 \<Rightarrow>
                       let p = next_addr s6;
                           s7 = emit [New_image p (cols (cached_frame s6)) (rows (cached_frame s6))]
                                  (s6\<lparr>heap := (heap s6)(p := Some (cols (cached_frame s6), rows (cached_frame s6))),
                                      next_addr := Suc p, fltk_img := Some p\<rparr>);
                           s8 = emit [Box_image (fltk_img s7)]
                                  (s7\<lparr>display_box := (display_box s7)\<lparr>box_image := fltk_img s7\<rparr>\<rparr>);
                           s9 = emit [Box_redraw, Window_redraw, Fl_flush] s8
                       in Inr (emit [Repeat_timeout (reciprocal (optimal_fps s9))] s9)))"

definition window_close_callback :: "machine \<Rightarrow> stop + machine" where
  "window_close_callback s =
     (let s1 = s\<lparr>is_running := False\<rparr>;
          s2 = cap_release s1
      in case delete_fltk_img s2 of
           Inl e \<Rightarrow> Inl e
         | Inr s3 \<Rightarrow> Inr (emit [Window_hide] (s3\<lparr>window := (window s3)\<lparr>shown := False\<rparr>\<rparr>)))"

text \<open>
  \<^verbatim>\<open>main\<close> up to its call of \<^verbatim>\<open>Fl::run\<close>. The screenshot button is created between the
  box and \<^verbatim>\<open>window->end()\<close>; it has no state of its own here.
\<close>

definition main_startup :: "machine \<Rightarrow> stop + machine" where
  "main_startup s =
     (let s1 = cap_open s in
      if \<not> opened (cap s1) then Inl (Exit (- 1))
      else
        case detect_resolutions s1 of
          Inl e \<Rightarrow> Inl e
        | Inr s2 \<Rightarrow>
            let s3 = detect_fps s2;
                s4 = s3\<lparr>frame_rgb :=
                        Mat_create (shd (junk s3)) (optimal_height s3) (optimal_width s3) (frame_rgb s3),
                      junk := stl (junk s3)\<rparr>;
                s5 = s4\<lparr>cached_frame :=
                        Mat_create (shd (junk s4)) (optimal_height s4) (optimal_width s4) (cached_frame s4),
                      junk := stl (junk s4)\<rparr>;
                s6 = cap_set CAP_PROP_AUTO_EXPOSURE 1 s5;
                s7 = cap_set CAP_PROP_AUTOFOCUS 1 s6;
                s8 = emit [Window_create (optimal_width s7) (optimal_height s7 + 30),
                           Box_create (optimal_width s7) (optimal_height s7)] s7;
                s9 = emit [Window_show] (s8\<lparr>window := (window s8)\<lparr>shown := True\<rparr>\<rparr>)
            in Inr (emit [Add_timeout 0] s9))"

text \<open>
  \<^verbatim>\<open>Fl::run\<close>: the toolkit calls back, one callback at a time, for as long as a window is
  shown. The list is what the user and the timer ask for, in order.
\<close>

datatype callback = Tick | Screenshot | Close

fun dispatch :: "callback \<Rightarrow> machine \<Rightarrow> stop + machine" where
  "dispatch Tick s = update_frame s"
| "dispatch Screenshot s = Inr (screenshot_callback s)"
| "dispatch Close s = window_close_callback s"

fun run :: "callback list \<Rightarrow> machine \<Rightarrow> stop + machine" where
  "run [] s = Inr s"
| "run (c # cs) s =
     (if \<not> shown (window s) then Inr s
      else case dispatch c s of Inl e \<Rightarrow> Inl e | Inr s' \<Rightarrow> run cs s')"

text \<open>The whole program: start up, then serve the callbacks.\<close>

definition main :: "callback list \<Rightarrow> machine \<Rightarrow> stop + machine" where
  "main cbs s = (case main_startup s of Inl e \<Rightarrow> Inl e | Inr s0 \<Rightarrow> run cbs s0)"

section \<open>Vocabulary of the properties\<close>

text \<open>Running one function of the program after another, as long as none of them stops.\<close>

fun and_then :: "stop + machine \<Rightarrow> (machine \<Rightarrow> stop + machine) \<Rightarrow> stop + machine" where
  "and_then (Inl e) f = Inl e"
| "and_then (Inr s) f = f s"

text \<open>The device after \<open>n\<close> more reads of property \<open>p\<close>.\<close>

definition consume :: "cap_prop \<Rightarrow> nat \<Rightarrow> machine \<Rightarrow> machine" where
  "consume p n s =
     s\<lparr>cap := (cap s)\<lparr>readback := (readback (cap s))(p := sdrop n (readback (cap s) p))\<rparr>\<rparr>"

text \<open>The calls on the device that probing the given candidates makes, in order.\<close>

definition fps_probes :: "real list \<Rightarrow> event list" where
  "fps_probes cs = concat (map (\<lambda>fps. [Cap_set CAP_PROP_FPS fps, Cap_get CAP_PROP_FPS]) cs)"

definition resolution_probes :: "(int \<times> int) list \<Rightarrow> event list" where
  "resolution_probes cs =
     concat (map (\<lambda>res. [Cap_set CAP_PROP_FRAME_WIDTH (of_int (fst res)),
                           Cap_set CAP_PROP_FRAME_HEIGHT (of_int (snd res)),
                           Cap_get CAP_PROP_FRAME_WIDTH,
                           Cap_get CAP_PROP_FRAME_HEIGHT]) cs)"

text \<open>The negotiated resolution after \<^verbatim>\<open>detect_resolutions\<close>, if it returns.\<close>

definition negotiated_resolution :: "machine \<Rightarrow> (int \<times> int) option" where
  "negotiated_resolution s =
     (case detect_resolutions s of
        Inl e \<Rightarrow> None
      | Inr s' \<Rightarrow> Some (optimal_width s', optimal_height s'))"

text \<open>The events by which the program touches the capture device or the timer.\<close>

fun pumps :: "event \<Rightarrow> bool" where
  "pumps Cap_open = True"
| "pumps (Cap_set p v) = True"
| "pumps (Cap_get p) = True"
| "pumps Cap_grab = True"
| "pumps Cap_retrieve = True"
| "pumps Cap_release = True"
| "pumps (Add_timeout t) = True"
| "pumps (Repeat_timeout t) = True"
| "pumps e = False"

subsection \<open>A concrete environment\<close>

text \<open>
  A camera that reports \<open>w\<close> by \<open>h\<close> at \<open>fps\<close> frames a second whatever is requested,
  whose \<^verbatim>\<open>grab\<close> and \<^verbatim>\<open>retrieve\<close> answer \<open>g\<close> and \<open>r\<close>, and that delivers a 640 by 480
  frame of one colour.
\<close>

definition test_frame :: Mat where
  "test_frame = \<lparr>rows = 480, cols = 640, data = Some (\<lambda>i. (1, 2, 3))\<rparr>"

definition test_camera :: "real \<Rightarrow> real \<Rightarrow> real stream \<Rightarrow> bool \<Rightarrow> bool \<Rightarrow> VideoCapture" where
  "test_camera w h fps g r =
     \<lparr>open_ok = True, opened = False,
      readback = (\<lambda>p. sconst 0)
        (CAP_PROP_FRAME_WIDTH := sconst w, CAP_PROP_FRAME_HEIGHT := sconst h, CAP_PROP_FPS := fps),
      grabbed = sconst g,
      retrieved = sconst (r, test_frame)\<rparr>"

text \<open>
  The program at its entry with that camera, a file system where every write succeeds,
  a clock that stands at 1700000000, black fresh memory, and a resampling that paints
  every pixel with the first pixel of its source.
\<close>

definition test_machine :: "real \<Rightarrow> real \<Rightarrow> real stream \<Rightarrow> bool \<Rightarrow> bool \<Rightarrow> machine" where
  "test_machine w h fps g r =
     app_initial (test_camera w h fps g r) (sconst True) (sconst 1700000000)
       (sconst (\<lambda>i. (0, 0, 0)))
       (\<lambda>src w h i. case data src of None \<Rightarrow> (0, 0, 0) | Some f \<Rightarrow> f 0)"

text \<open>Reading a string of decimal digits back as a number.\<close>

definition digit_value :: "char \<Rightarrow> nat" where
  "digit_value c = of_char c - 48"

definition decimal_value :: "string \<Rightarrow> nat" where
  "decimal_value cs = foldl (\<lambda>a c. 10 * a + digit_value c) 0 cs"

text \<open>
  What the program sees of the \<open>j\<close>-th read-back of the resolution: width and height
  after the conversion to \<^verbatim>\<open>int\<close>, if both conversions are defined.
\<close>

definition read_back_resolution :: "machine \<Rightarrow> nat \<Rightarrow> (int \<times> int) option" where
  "read_back_resolution s j =
     (case static_cast_int (readback (cap s) CAP_PROP_FRAME_WIDTH !! j) of
        None \<Rightarrow> None
      | Some w \<Rightarrow>
          (case static_cast_int (readback (cap s) CAP_PROP_FRAME_HEIGHT !! j) of
             None \<Rightarrow> None
           | Some h \<Rightarrow> Some (w, h)))"

text \<open>The device after \<open>n\<close> more reads of the width and of the height.\<close>

definition consume_resolution :: "nat \<Rightarrow> machine \<Rightarrow> machine" where
  "consume_resolution n s = consume CAP_PROP_FRAME_WIDTH n (consume CAP_PROP_FRAME_HEIGHT n s)"

section \<open>Evaluating the program in the concrete environment\<close>

text \<open>The definitions a run of the whole program unfolds.\<close>

lemmas prog_defs = main_def main_startup_def detect_resolutions_def detect_fps_def
  resolutions_def fps_candidates_def cap_open_def cap_set_def cap_get_def cap_grab_def
  cap_retrieve_def cap_release_def emit_def static_cast_int_def Mat_create_def Mat_default_def
  Mat_empty_def resize_def cvtColor_def copyTo_def delete_fltk_img_def update_frame_def
  window_close_callback_def screenshot_callback_def reciprocal_def
  test_machine_def test_camera_def test_frame_def app_initial_def Let_def split_beta

lemma to_string_nat_digit: "n < 10 \<Longrightarrow> to_string_nat n = [digit_char n]"
  by (subst to_string_nat.simps) simp

lemma to_string_nat_more:
  "\<not> n < 10 \<Longrightarrow> to_string_nat n = to_string_nat (n div 10) @ [digit_char (n mod 10)]"
  by (subst to_string_nat.simps) simp

lemma to_string_1700000000: "to_string 1700000000 = ''1700000000''"
  by (simp add: to_string_def digit_char_def to_string_nat_digit to_string_nat_more)

section \<open>Properties of the Capability Prober\<close>

subsection \<open>Reading and logging commute\<close>

lemma consume_0: "consume p 0 s = s"
  by (simp add: consume_def)

lemma emit_emit: "emit es (emit es' s) = emit (es' @ es) s"
  by (simp add: emit_def)

lemma consume_emit: "consume p n (emit es s) = emit es (consume p n s)"
  by (simp add: emit_def consume_def)

lemma consume_consume: "consume p n (consume p m s) = consume p (m + n) s"
  by (simp add: consume_def)

lemma readback_consume: "readback (cap (consume p n s)) p = sdrop n (readback (cap s) p)"
  by (simp add: consume_def)

lemma readback_emit: "readback (cap (emit es s)) = readback (cap s)"
  by (simp add: emit_def)

subsection \<open>Resolution\<close>

lemma resolution_step:
  "cap_get CAP_PROP_FRAME_HEIGHT
     (snd (cap_get CAP_PROP_FRAME_WIDTH
        (cap_set CAP_PROP_FRAME_HEIGHT h (cap_set CAP_PROP_FRAME_WIDTH w s)))) =
   (shd (readback (cap s) CAP_PROP_FRAME_HEIGHT),
    emit [Cap_set CAP_PROP_FRAME_WIDTH w, Cap_set CAP_PROP_FRAME_HEIGHT h,
          Cap_get CAP_PROP_FRAME_WIDTH, Cap_get CAP_PROP_FRAME_HEIGHT]
      (consume_resolution (Suc 0) s))"
  by (simp add: cap_get_def cap_set_def emit_def consume_resolution_def consume_def fun_upd_twist)

lemma resolution_step_width:
  "fst (cap_get CAP_PROP_FRAME_WIDTH
     (cap_set CAP_PROP_FRAME_HEIGHT h (cap_set CAP_PROP_FRAME_WIDTH w s))) =
   shd (readback (cap s) CAP_PROP_FRAME_WIDTH)"
  by (simp add: cap_get_def cap_set_def emit_def)

lemma consume_resolution_emit:
  "consume_resolution n (emit es s) = emit es (consume_resolution n s)"
  by (simp add: consume_resolution_def consume_emit)

lemma consume_resolution_twice:
  "consume_resolution n (consume_resolution m s) = consume_resolution (m + n) s"
  by (simp add: consume_resolution_def consume_def fun_upd_twist)

lemma read_back_resolution_step:
  "read_back_resolution (emit es (consume_resolution (Suc 0) s)) j = read_back_resolution s (Suc j)"
  by (simp add: read_back_resolution_def consume_resolution_def consume_def emit_def
      cong: option.case_cong)

lemma read_back_resolution_0:
  "read_back_resolution s 0 = Some (w, h) \<longleftrightarrow>
     static_cast_int (shd (readback (cap s) CAP_PROP_FRAME_WIDTH)) = Some w \<and>
     static_cast_int (shd (readback (cap s) CAP_PROP_FRAME_HEIGHT)) = Some h"
  by (auto simp: read_back_resolution_def split: option.splits)

lemma detect_resolutions_loop_reject:
  assumes "read_back_resolution s 0 = Some r" and "r \<noteq> c"
  shows "detect_resolutions_loop (c # cs) s =
     detect_resolutions_loop cs
       (emit (resolution_probes [c]) (consume_resolution (Suc 0) s))"
proof -
  obtain w h where r: "r = (w, h)" by (cases r)
  with assms(1) have
    "static_cast_int (shd (readback (cap s) CAP_PROP_FRAME_WIDTH)) = Some w"
    "static_cast_int (shd (readback (cap s) CAP_PROP_FRAME_HEIGHT)) = Some h"
    by (simp_all add: read_back_resolution_0)
  moreover from assms(2) r have "\<not> (w = fst c \<and> h = snd c)" by auto
  ultimately show ?thesis
    by (auto simp: Let_def split_beta resolution_step resolution_step_width
        resolution_probes_def)
qed

lemma detect_resolutions_loop_accept:
  assumes "read_back_resolution s 0 = Some c"
  shows "detect_resolutions_loop (c # cs) s =
     Inr ((emit (resolution_probes [c]) (consume_resolution (Suc 0) s))
           \<lparr>optimal_width := fst c, optimal_height := snd c\<rparr>)"
proof -
  obtain w h where c: "c = (w, h)" by (cases c)
  with assms have
    "static_cast_int (shd (readback (cap s) CAP_PROP_FRAME_WIDTH)) = Some (fst c)"
    "static_cast_int (shd (readback (cap s) CAP_PROP_FRAME_HEIGHT)) = Some (snd c)"
    by (simp_all add: read_back_resolution_0)
  then show ?thesis
    by (simp add: Let_def split_beta resolution_step resolution_step_width resolution_probes_def)
qed

lemma resolution_probes_Cons:
  "resolution_probes (c # cs) = resolution_probes [c] @ resolution_probes cs"
  by (simp add: resolution_probes_def)

lemma detect_resolutions_loop_miss:
  "(\<forall>j<length cs. \<exists>r. read_back_resolution s j = Some r \<and> r \<noteq> cs ! j) \<Longrightarrow>
   detect_resolutions_loop cs s =
     Inr (emit (resolution_probes cs) (consume_resolution (length cs) s))"
proof (induction cs arbitrary: s)
  case Nil
  then show ?case
    by (simp add: resolution_probes_def consume_resolution_def consume_0 emit_def)
next
  case (Cons c cs)
  let ?s4 = "emit (resolution_probes [c]) (consume_resolution (Suc 0) s)"
  from Cons.prems obtain r where r: "read_back_resolution s 0 = Some r" "r \<noteq> c"
    by fastforce
  have rest: "\<forall>j<length cs. \<exists>r. read_back_resolution ?s4 j = Some r \<and> r \<noteq> cs ! j"
  proof (intro allI impI)
    fix j assume "j < length cs"
    with Cons.prems have "\<exists>r. read_back_resolution s (Suc j) = Some r \<and> r \<noteq> (c # cs) ! Suc j"
      by (metis Suc_less_eq length_Cons)
    then show "\<exists>r. read_back_resolution ?s4 j = Some r \<and> r \<noteq> cs ! j"
      by (simp add: read_back_resolution_step)
  qed
  have "detect_resolutions_loop (c # cs) s = detect_resolutions_loop cs ?s4"
    using r by (rule detect_resolutions_loop_reject)
  also note Cons.IH [OF rest]
  finally show ?case
    by (simp add: consume_resolution_emit consume_resolution_twice emit_emit
        resolution_probes_Cons [of c cs])
qed

lemma detect_resolutions_loop_hit:
  "i < length cs \<Longrightarrow> read_back_resolution s i = Some (cs ! i) \<Longrightarrow>
   (\<forall>j<i. \<exists>r. read_back_resolution s j = Some r \<and> r \<noteq> cs ! j) \<Longrightarrow>
   detect_resolutions_loop cs s =
     Inr ((emit (resolution_probes (take (Suc i) cs)) (consume_resolution (Suc i) s))
           \<lparr>optimal_width := fst (cs ! i), optimal_height := snd (cs ! i)\<rparr>)"
proof (induction cs arbitrary: s i)
  case Nil
  then show ?case by simp
next
  case (Cons c cs)
  let ?s4 = "emit (resolution_probes [c]) (consume_resolution (Suc 0) s)"
  show ?case
  proof (cases i)
    case 0
    with Cons.prems show ?thesis
      by (simp add: detect_resolutions_loop_accept del: detect_resolutions_loop.simps)
  next
    case (Suc k)
    from Cons.prems Suc obtain r where r: "read_back_resolution s 0 = Some r" "r \<noteq> c"
      by fastforce
    have k: "k < length cs" using Cons.prems Suc by simp
    have hitk: "read_back_resolution ?s4 k = Some (cs ! k)"
      using Cons.prems Suc by (simp add: read_back_resolution_step)
    have rest: "\<forall>j<k. \<exists>r. read_back_resolution ?s4 j = Some r \<and> r \<noteq> cs ! j"
    proof (intro allI impI)
      fix j assume "j < k"
      with Cons.prems Suc
      have "\<exists>r. read_back_resolution s (Suc j) = Some r \<and> r \<noteq> (c # cs) ! Suc j"
        by (metis Suc_less_eq)
      then show "\<exists>r. read_back_resolution ?s4 j = Some r \<and> r \<noteq> cs ! j"
        by (simp add: read_back_resolution_step)
    qed
    have "detect_resolutions_loop (c # cs) s = detect_resolutions_loop cs ?s4"
      using r by (rule detect_resolutions_loop_reject)
    also note Cons.IH [OF k hitk rest]
    finally show ?thesis using Suc
      by (simp add: consume_resolution_emit consume_resolution_twice emit_emit
          resolution_probes_Cons [of c "take (Suc k) cs"])
  qed
qed

text \<open>
  Claim C1, as stated, fails in four places.
  \<^item> A camera that reports 320 by 240 whatever is requested: no candidate matches, the last
    candidate's read-back is 320 by 240, and the negotiated resolution is 640 by 480.
  \<^item> A camera that reports 3840.5 by 2160.5: the read-back does not equal the first
    request exactly, yet the first candidate is accepted, because the program compares
    after converting to \<^verbatim>\<open>int\<close>.
  \<^item> A camera that reports a width of 10000000000: the conversion to \<^verbatim>\<open>int\<close> is undefined,
    and no resolution is negotiated.
  \<^item> The list is not in descending order: 1280 by 720 is requested before 1280 by 960.
\<close>

theorem detect_resolutions_no_match_counterexample:
  "read_back_resolution (test_machine 320 240 (sconst 30) True True) (length resolutions - 1)
     = Some (320, 240) \<and>
   negotiated_resolution (test_machine 320 240 (sconst 30) True True) = Some (640, 480) \<and>
   readback (cap (test_machine 3840.5 2160.5 (sconst 30) True True)) CAP_PROP_FRAME_WIDTH !! 0
     = 3840.5 \<and>
   readback (cap (test_machine 3840.5 2160.5 (sconst 30) True True)) CAP_PROP_FRAME_HEIGHT !! 0
     = 2160.5 \<and>
   negotiated_resolution (test_machine 3840.5 2160.5 (sconst 30) True True) = Some (3840, 2160) \<and>
   detect_resolutions (test_machine 10000000000 1080 (sconst 30) True True)
     = Inl Cast_out_of_range \<and>
   resolutions ! 3 = (1280, 720) \<and> resolutions ! 4 = (1280, 960)"
  by (simp add: negotiated_resolution_def read_back_resolution_def prog_defs)

text \<open>
  Claim C1, amended. \<^verbatim>\<open>detect_resolutions\<close> requests the candidates of its list one at a
  time, width and height of each, then reads both back. Whatever the device reads back,
  as long as the values fit an \<^verbatim>\<open>int\<close>: if candidate \<open>i\<close> is the first whose read-back,
  converted to \<^verbatim>\<open>int\<close>, equals the request, probing stops after it and \<open>optimal_width\<close>,
  \<open>optimal_height\<close> are that candidate; if no candidate matches, all are tried and
  \<open>optimal_width\<close>, \<open>optimal_height\<close> are left as they were, which at startup is the default
  640 by 480. Nothing else in the state changes.
\<close>

theorem detect_resolutions_first_exact_match:
  "(\<forall>i<length resolutions.
      read_back_resolution s i = Some (resolutions ! i) \<and>
      (\<forall>j<i. \<exists>r. read_back_resolution s j = Some r \<and> r \<noteq> resolutions ! j) \<longrightarrow>
      detect_resolutions s =
        Inr ((emit (resolution_probes (take (Suc i) resolutions)) (consume_resolution (Suc i) s))
              \<lparr>optimal_width := fst (resolutions ! i),
                optimal_height := snd (resolutions ! i)\<rparr>)) \<and>
   ((\<forall>j<length resolutions. \<exists>r. read_back_resolution s j = Some r \<and> r \<noteq> resolutions ! j) \<longrightarrow>
      (\<exists>s'. detect_resolutions s = Inr s' \<and>
         s' = emit (resolution_probes resolutions) (consume_resolution (length resolutions) s) \<and>
         optimal_width s' = optimal_width s \<and> optimal_height s' = optimal_height s)) \<and>
   optimal_width (app_initial dev wr clk jk il) = 640 \<and>
   optimal_height (app_initial dev wr clk jk il) = 480"
proof (intro conjI allI impI)
  fix i
  assume "i < length resolutions"
    and "read_back_resolution s i = Some (resolutions ! i) \<and>
      (\<forall>j<i. \<exists>r. read_back_resolution s j = Some r \<and> r \<noteq> resolutions ! j)"
  then show "detect_resolutions s =
        Inr ((emit (resolution_probes (take (Suc i) resolutions)) (consume_resolution (Suc i) s))
              \<lparr>optimal_width := fst (resolutions ! i),
                optimal_height := snd (resolutions ! i)\<rparr>)"
    unfolding detect_resolutions_def by (simp add: detect_resolutions_loop_hit)
next
  assume "\<forall>j<length resolutions. \<exists>r. read_back_resolution s j = Some r \<and> r \<noteq> resolutions ! j"
  then have "detect_resolutions s =
      Inr (emit (resolution_probes resolutions) (consume_resolution (length resolutions) s))"
    unfolding detect_resolutions_def by (rule detect_resolutions_loop_miss)
  then show "\<exists>s'. detect_resolutions s = Inr s' \<and>
         s' = emit (resolution_probes resolutions) (consume_resolution (length resolutions) s) \<and>
         optimal_width s' = optimal_width s \<and> optimal_height s' = optimal_height s"
    by (simp add: emit_def consume_resolution_def consume_def)
next
  show "optimal_width (app_initial dev wr clk jk il) = 640"
    and "optimal_height (app_initial dev wr clk jk il) = 480"
    by (simp_all add: app_initial_def)
qed

text \<open>
  The amended claim at two cameras: one reports 1920 by 1080 and is accepted at the
  third request, one reports 320 by 240 and is left with the default.
\<close>

theorem detect_resolutions_first_exact_match_witness:
  "read_back_resolution (test_machine 1920 1080 (sconst 30) True True) 2 = Some (resolutions ! 2) \<and>
   negotiated_resolution (test_machine 1920 1080 (sconst 30) True True) = Some (1920, 1080) \<and>
   read_back_resolution (test_machine 320 240 (sconst 30) True True) 6 = Some (320, 240) \<and>
   negotiated_resolution (test_machine 320 240 (sconst 30) True True) = Some (640, 480)"
proof -
  let ?m = "test_machine 1920 1080 (sconst 30) True True"
  let ?n = "test_machine 320 240 (sconst 30) True True"
  have rb: "read_back_resolution ?m j = Some (1920, 1080)"
    "read_back_resolution ?n j = Some (320, 240)" for j
    by (simp_all add: read_back_resolution_def static_cast_int_def test_machine_def
        test_camera_def app_initial_def)
  have hit: "read_back_resolution ?m 2 = Some (resolutions ! 2) \<and>
      (\<forall>j<2. \<exists>r. read_back_resolution ?m j = Some r \<and> r \<noteq> resolutions ! j)"
    by (simp add: rb resolutions_def less_Suc_eq numeral_2_eq_2)
  have miss: "\<forall>j<length resolutions. \<exists>r. read_back_resolution ?n j = Some r \<and> r \<noteq> resolutions ! j"
    by (simp add: rb resolutions_def less_Suc_eq all_conj_distrib)
  have two: "(2 :: nat) < length resolutions"
    by (simp add: resolutions_def)
  from detect_resolutions_first_exact_match [of ?m] hit two
  have "detect_resolutions ?m =
        Inr ((emit (resolution_probes (take (Suc 2) resolutions)) (consume_resolution (Suc 2) ?m))
              \<lparr>optimal_width := fst (resolutions ! 2),
                optimal_height := snd (resolutions ! 2)\<rparr>)"
    by blast
  then have a: "negotiated_resolution ?m = Some (1920, 1080)"
    by (simp add: negotiated_resolution_def resolutions_def)
  from detect_resolutions_first_exact_match [of ?n] miss
  obtain s' where "detect_resolutions ?n = Inr s'"
    "optimal_width s' = optimal_width ?n" "optimal_height s' = optimal_height ?n"
    by blast
  then have b: "negotiated_resolution ?n = Some (640, 480)"
    by (simp add: negotiated_resolution_def test_machine_def app_initial_def)
  from hit a rb b show ?thesis by simp
qed

subsection \<open>Frame rate\<close>

lemma fps_step_state:
  "snd (cap_get CAP_PROP_FPS (cap_set CAP_PROP_FPS v s)) =
     emit [Cap_set CAP_PROP_FPS v, Cap_get CAP_PROP_FPS] (consume CAP_PROP_FPS 1 s)"
  by (simp add: cap_get_def cap_set_def emit_def consume_def)

lemma fps_step_value:
  "fst (cap_get CAP_PROP_FPS (cap_set CAP_PROP_FPS v s)) = shd (readback (cap s) CAP_PROP_FPS)"
  by (simp add: cap_get_def cap_set_def emit_def)

lemma detect_fps_loop_reject:
  "\<not> \<bar>shd (readback (cap s) CAP_PROP_FPS) - c\<bar> < 1 \<Longrightarrow>
   detect_fps_loop (c # cs) s =
     detect_fps_loop cs (emit [Cap_set CAP_PROP_FPS c, Cap_get CAP_PROP_FPS] (consume CAP_PROP_FPS 1 s))"
  by (simp add: split_beta fps_step_state fps_step_value Let_def)

lemma detect_fps_loop_miss:
  "(\<forall>j<length cs. \<not> \<bar>readback (cap s) CAP_PROP_FPS !! j - cs ! j\<bar> < 1) \<Longrightarrow>
   detect_fps_loop cs s = (False, emit (fps_probes cs) (consume CAP_PROP_FPS (length cs) s))"
proof (induction cs arbitrary: s)
  case Nil
  then show ?case by (simp add: fps_probes_def consume_0 emit_def)
next
  case (Cons c cs)
  let ?s2 = "emit [Cap_set CAP_PROP_FPS c, Cap_get CAP_PROP_FPS] (consume CAP_PROP_FPS 1 s)"
  from Cons.prems have no0: "\<not> \<bar>shd (readback (cap s) CAP_PROP_FPS) - c\<bar> < 1" by fastforce
  have rest: "\<forall>j<length cs. \<not> \<bar>readback (cap ?s2) CAP_PROP_FPS !! j - cs ! j\<bar> < 1"
  proof (intro allI impI)
    fix j assume "j < length cs"
    with Cons.prems have "\<not> \<bar>readback (cap s) CAP_PROP_FPS !! Suc j - (c # cs) ! Suc j\<bar> < 1"
      by (metis Suc_less_eq length_Cons)
    then show "\<not> \<bar>readback (cap ?s2) CAP_PROP_FPS !! j - cs ! j\<bar> < 1"
      by (simp add: readback_emit readback_consume)
  qed
  have "detect_fps_loop (c # cs) s = detect_fps_loop cs ?s2"
    using no0 by (rule detect_fps_loop_reject)
  also have "\<dots> = (False, emit (fps_probes cs) (consume CAP_PROP_FPS (length cs) ?s2))"
    by (rule Cons.IH [OF rest])
  finally show ?case
    by (simp add: consume_emit consume_consume emit_emit fps_probes_def)
qed

lemma detect_fps_loop_hit:
  "i < length cs \<Longrightarrow> \<bar>readback (cap s) CAP_PROP_FPS !! i - cs ! i\<bar> < 1 \<Longrightarrow>
   (\<forall>j<i. \<not> \<bar>readback (cap s) CAP_PROP_FPS !! j - cs ! j\<bar> < 1) \<Longrightarrow>
   detect_fps_loop cs s =
     (True, (emit (fps_probes (take (Suc i) cs)) (consume CAP_PROP_FPS (Suc i) s))
              \<lparr>optimal_fps := readback (cap s) CAP_PROP_FPS !! i\<rparr>)"
proof (induction cs arbitrary: s i)
  case Nil
  then show ?case by simp
next
  case (Cons c cs)
  let ?s2 = "emit [Cap_set CAP_PROP_FPS c, Cap_get CAP_PROP_FPS] (consume CAP_PROP_FPS 1 s)"
  show ?case
  proof (cases i)
    case 0
    with Cons.prems show ?thesis
      by (simp add: split_beta fps_step_state fps_step_value Let_def fps_probes_def)
  next
    case (Suc k)
    from Cons.prems Suc have no0: "\<not> \<bar>shd (readback (cap s) CAP_PROP_FPS) - c\<bar> < 1" by fastforce
    have k: "k < length cs" using Cons.prems Suc by simp
    have hitk: "\<bar>readback (cap ?s2) CAP_PROP_FPS !! k - cs ! k\<bar> < 1"
      using Cons.prems Suc by (simp add: readback_emit readback_consume)
    have rest: "\<forall>j<k. \<not> \<bar>readback (cap ?s2) CAP_PROP_FPS !! j - cs ! j\<bar> < 1"
    proof (intro allI impI)
      fix j assume "j < k"
      with Cons.prems Suc have "\<not> \<bar>readback (cap s) CAP_PROP_FPS !! Suc j - (c # cs) ! Suc j\<bar> < 1"
        by (metis Suc_less_eq)
      then show "\<not> \<bar>readback (cap ?s2) CAP_PROP_FPS !! j - cs ! j\<bar> < 1"
        by (simp add: readback_emit readback_consume)
    qed
    have "detect_fps_loop (c # cs) s = detect_fps_loop cs ?s2"
      using no0 by (rule detect_fps_loop_reject)
    also note Cons.IH [OF k hitk rest]
    finally show ?thesis using Suc
      by (simp add: consume_emit consume_consume emit_emit fps_probes_def readback_emit readback_consume)
  qed
qed

lemma detect_fps_accept:
  assumes "i < length fps_candidates"
    and "\<bar>readback (cap s) CAP_PROP_FPS !! i - fps_candidates ! i\<bar> < 1"
    and "\<forall>j<i. \<not> \<bar>readback (cap s) CAP_PROP_FPS !! j - fps_candidates ! j\<bar> < 1"
  shows "detect_fps s =
     (emit (fps_probes (take (Suc i) fps_candidates)) (consume CAP_PROP_FPS (Suc i) s))
       \<lparr>optimal_fps := readback (cap s) CAP_PROP_FPS !! i\<rparr>"
  unfolding detect_fps_def detect_fps_loop_hit [OF assms] by simp

lemma detect_fps_fallback:
  assumes "\<forall>j<length fps_candidates.
             \<not> \<bar>readback (cap s) CAP_PROP_FPS !! j - fps_candidates ! j\<bar> < 1"
  shows "detect_fps s =
     (emit (fps_probes fps_candidates @ [Cap_get CAP_PROP_FPS])
        (consume CAP_PROP_FPS (Suc (length fps_candidates)) s))
       \<lparr>optimal_fps := readback (cap s) CAP_PROP_FPS !! length fps_candidates\<rparr>"
  unfolding detect_fps_def detect_fps_loop_miss [OF assms]
  by (simp add: cap_get_def emit_def consume_def)

lemma fps_candidates_descending: "sorted_wrt (>) fps_candidates"
  by (simp add: fps_candidates_def)

text \<open>
  Claim C4. \<^verbatim>\<open>detect_fps\<close> requests the candidates 60, 50, 30, 25, 24, 15, 10 in this
  (descending) order, one \<^verbatim>\<open>set\<close> and one \<^verbatim>\<open>get\<close> each. Whatever the device reads back:
  if candidate \<open>i\<close> is the first whose read-back differs from the request by less than
  1.0, probing stops after it and \<open>optimal_fps\<close> is that read-back; if no candidate is
  within tolerance, all seven are tried and \<open>optimal_fps\<close> is what one more \<^verbatim>\<open>get\<close> reports,
  the device's current value. Nothing else in the state changes. For read-backs 59.9, 49.0,
  30.0 to the requests 60, 50, 30 the result is 59.9.
\<close>

theorem detect_fps_first_within_tolerance:
  "sorted_wrt (>) fps_candidates \<and>
   (\<forall>i<length fps_candidates.
      \<bar>readback (cap s) CAP_PROP_FPS !! i - fps_candidates ! i\<bar> < 1 \<and>
      (\<forall>j<i. \<not> \<bar>readback (cap s) CAP_PROP_FPS !! j - fps_candidates ! j\<bar> < 1) \<longrightarrow>
      detect_fps s =
        (emit (fps_probes (take (Suc i) fps_candidates)) (consume CAP_PROP_FPS (Suc i) s))
          \<lparr>optimal_fps := readback (cap s) CAP_PROP_FPS !! i\<rparr>) \<and>
   ((\<forall>j<length fps_candidates.
       \<not> \<bar>readback (cap s) CAP_PROP_FPS !! j - fps_candidates ! j\<bar> < 1) \<longrightarrow>
      detect_fps s =
        (emit (fps_probes fps_candidates @ [Cap_get CAP_PROP_FPS])
           (consume CAP_PROP_FPS (Suc (length fps_candidates)) s))
          \<lparr>optimal_fps := readback (cap s) CAP_PROP_FPS !! length fps_candidates\<rparr>) \<and>
   (take 3 fps_candidates = [60, 50, 30] \<and>
    (stake 3 (readback (cap s) CAP_PROP_FPS) = [59.9, 49.0, 30.0] \<longrightarrow>
       optimal_fps (detect_fps s) = 59.9))"
proof (intro conjI allI impI)
  show "sorted_wrt (>) fps_candidates" by (rule fps_candidates_descending)
next
  fix i
  assume "i < length fps_candidates"
    and "\<bar>readback (cap s) CAP_PROP_FPS !! i - fps_candidates ! i\<bar> < 1 \<and>
      (\<forall>j<i. \<not> \<bar>readback (cap s) CAP_PROP_FPS !! j - fps_candidates ! j\<bar> < 1)"
  then show "detect_fps s =
        (emit (fps_probes (take (Suc i) fps_candidates)) (consume CAP_PROP_FPS (Suc i) s))
          \<lparr>optimal_fps := readback (cap s) CAP_PROP_FPS !! i\<rparr>"
    by (simp add: detect_fps_accept)
next
  assume "\<forall>j<length fps_candidates.
       \<not> \<bar>readback (cap s) CAP_PROP_FPS !! j - fps_candidates ! j\<bar> < 1"
  then show "detect_fps s =
        (emit (fps_probes fps_candidates @ [Cap_get CAP_PROP_FPS])
           (consume CAP_PROP_FPS (Suc (length fps_candidates)) s))
          \<lparr>optimal_fps := readback (cap s) CAP_PROP_FPS !! length fps_candidates\<rparr>"
    by (rule detect_fps_fallback)
next
  show "take 3 fps_candidates = [60, 50, 30]"
    by (simp add: fps_candidates_def)
next
  assume "stake 3 (readback (cap s) CAP_PROP_FPS) = [59.9, 49.0, 30.0]"
  then have r0: "shd (readback (cap s) CAP_PROP_FPS) = 59.9"
    by (simp add: numeral_3_eq_3)
  have "detect_fps s =
        (emit (fps_probes (take (Suc 0) fps_candidates)) (consume CAP_PROP_FPS (Suc 0) s))
          \<lparr>optimal_fps := readback (cap s) CAP_PROP_FPS !! 0\<rparr>"
    by (rule detect_fps_accept) (simp_all add: r0 fps_candidates_def)
  then show "optimal_fps (detect_fps s) = 59.9"
    using r0 by simp
qed

text \<open>
  The theorem at two cameras: one reads back 59.9, 49.0, then 30.0 for ever and
  is accepted at the first request; one reports 0 whatever is requested and ends on the
  fallback.
\<close>

theorem detect_fps_first_within_tolerance_witness:
  "stake 3 (readback (cap (test_machine 1920 1080 (59.9 ## 49.0 ## sconst 30.0) True True)) CAP_PROP_FPS)
     = [59.9, 49.0, 30.0] \<and>
   optimal_fps (detect_fps (test_machine 1920 1080 (59.9 ## 49.0 ## sconst 30.0) True True)) = 59.9 \<and>
   optimal_fps (detect_fps (test_machine 1920 1080 (sconst 0) True True)) = 0"
proof -
  let ?m = "test_machine 1920 1080 (59.9 ## 49.0 ## sconst 30.0) True True"
  let ?z = "test_machine 1920 1080 (sconst 0) True True"
  have st: "stake 3 (readback (cap ?m) CAP_PROP_FPS) = [59.9, 49.0, 30.0]"
    by (simp add: test_machine_def test_camera_def app_initial_def numeral_3_eq_3)
  have none: "\<forall>j<length fps_candidates.
       \<not> \<bar>readback (cap ?z) CAP_PROP_FPS !! j - fps_candidates ! j\<bar> < 1"
    by (simp add: test_machine_def test_camera_def app_initial_def fps_candidates_def
        less_Suc_eq all_conj_distrib)
  from detect_fps_first_within_tolerance [of ?m] st
  have a: "optimal_fps (detect_fps ?m) = 59.9" by blast
  from detect_fps_first_within_tolerance [of ?z] none
  have "detect_fps ?z =
        (emit (fps_probes fps_candidates @ [Cap_get CAP_PROP_FPS])
           (consume CAP_PROP_FPS (Suc (length fps_candidates)) ?z))
          \<lparr>optimal_fps := readback (cap ?z) CAP_PROP_FPS !! length fps_candidates\<rparr>"
    by blast
  then have b: "optimal_fps (detect_fps ?z) = 0"
    by (simp add: test_machine_def test_camera_def app_initial_def)
  from st a b show ?thesis by blast
qed

section \<open>Properties of the Frame Pump\<close>

subsection \<open>The two failures of a tick\<close>

lemma update_frame_grab_failed:
  assumes "is_running s" and "\<not> shd (grabbed (cap s))"
  shows "update_frame s =
     Inr (s\<lparr>cap := (cap s)\<lparr>grabbed := stl (grabbed (cap s))\<rparr>,
            is_running := False,
            trace := trace s @ [Cap_grab, Fl_alert Camera_error_grab]\<rparr>)"
  using assms by (simp add: update_frame_def cap_grab_def emit_def)

lemma update_frame_retrieve_failed:
  assumes "is_running s" and "shd (grabbed (cap s))" and "\<not> fst (shd (retrieved (cap s)))"
  shows "update_frame s =
     Inr (s\<lparr>cap := (cap s)\<lparr>grabbed := stl (grabbed (cap s)),
                             retrieved := stl (retrieved (cap s))\<rparr>,
            frame := snd (shd (retrieved (cap s))),
            is_running := False,
            trace := trace s @ [Cap_grab, Cap_retrieve, Fl_alert Camera_error_decode]\<rparr>)"
  using assms by (simp add: update_frame_def cap_grab_def cap_retrieve_def emit_def)

text \<open>
  Claim C5. A tick that starts running, whose \<^verbatim>\<open>grab\<close> succeeds and whose \<^verbatim>\<open>retrieve\<close>
  fails, returns with \<open>is_running\<close> false and with \<open>cached_frame\<close> as it was. The raw
  frame is what the failed \<^verbatim>\<open>retrieve\<close> left in it (not resized), the converted buffer, the
  image object, the heap, the box and the window are as they were, and the tick's only
  events are the two device calls and the decode alert: no resize, conversion, copy,
  image rebuild, repaint or timeout. The last conjunct gives the whole state.
\<close>

theorem update_frame_decode_failure:
  assumes "is_running s" and "shd (grabbed (cap s))" and "\<not> fst (shd (retrieved (cap s)))"
  shows "\<exists>s'. update_frame s = Inr s' \<and> \<not> is_running s' \<and>
           cached_frame s' = cached_frame s \<and> frame_rgb s' = frame_rgb s \<and>
           fltk_img s' = fltk_img s \<and> heap s' = heap s \<and> next_addr s' = next_addr s \<and>
           display_box s' = display_box s \<and> window s' = window s \<and>
           trace s' = trace s @ [Cap_grab, Cap_retrieve, Fl_alert Camera_error_decode] \<and>
           frame s' = snd (shd (retrieved (cap s))) \<and>
           s' = s\<lparr>cap := (cap s)\<lparr>grabbed := stl (grabbed (cap s)),
                                   retrieved := stl (retrieved (cap s))\<rparr>,
                  frame := snd (shd (retrieved (cap s))),
                  is_running := False,
                  trace := trace s @ [Cap_grab, Cap_retrieve, Fl_alert Camera_error_decode]\<rparr>"
  by (simp add: update_frame_retrieve_failed [OF assms])

text \<open>
  The theorem at the state \<^verbatim>\<open>main\<close> reaches with a camera that reports 1920 by 1080 at 30
  frames a second, whose \<^verbatim>\<open>grab\<close> succeeds and whose \<^verbatim>\<open>retrieve\<close> fails, leaving the
  640 by 480 test frame behind.
\<close>

theorem update_frame_decode_failure_witness:
  "\<exists>s0 s'. main_startup (test_machine 1920 1080 (sconst 30) True False) = Inr s0 \<and>
     is_running s0 \<and> shd (grabbed (cap s0)) \<and> \<not> fst (shd (retrieved (cap s0))) \<and>
     update_frame s0 = Inr s' \<and> \<not> is_running s' \<and>
     cached_frame s' = cached_frame s0 \<and> frame_rgb s' = frame_rgb s0 \<and>
     frame s' = test_frame \<and>
     trace s' = trace s0 @ [Cap_grab, Cap_retrieve, Fl_alert Camera_error_decode]"
proof -
  let ?m = "test_machine 1920 1080 (sconst 30) True False"
  obtain s0 where s0: "main_startup ?m = Inr s0"
    and a: "is_running s0" and b: "shd (grabbed (cap s0))"
    and c: "\<not> fst (shd (retrieved (cap s0)))"
    and d: "snd (shd (retrieved (cap s0))) = test_frame"
    by (simp add: prog_defs)
  from update_frame_decode_failure [OF a b c] obtain s' where
    "update_frame s0 = Inr s'" "\<not> is_running s'" "cached_frame s' = cached_frame s0"
    "frame_rgb s' = frame_rgb s0" "frame s' = snd (shd (retrieved (cap s0)))"
    "trace s' = trace s0 @ [Cap_grab, Cap_retrieve, Fl_alert Camera_error_decode]"
    by blast
  with s0 a b c d show ?thesis
    by auto
qed

text \<open>
  Claim C6. A tick that starts running and whose \<^verbatim>\<open>grab\<close> fails returns with \<open>is_running\<close>
  false. Its only events are the \<^verbatim>\<open>grab\<close> and the capture alert: \<^verbatim>\<open>retrieve\<close> is not called
  (the device's next decode answer is still unread and \<open>frame\<close> is untouched) and no
  timeout is set; the tick after it, should one come, changes nothing.
\<close>

theorem update_frame_latch_failure:
  assumes "is_running s" and "\<not> shd (grabbed (cap s))"
  shows "\<exists>s'. update_frame s = Inr s' \<and> \<not> is_running s' \<and>
           retrieved (cap s') = retrieved (cap s) \<and> frame s' = frame s \<and>
           trace s' = trace s @ [Cap_grab, Fl_alert Camera_error_grab] \<and>
           update_frame s' = Inr s'"
  by (simp add: update_frame_grab_failed [OF assms]) (simp add: update_frame_def)

text \<open>
  The theorem at the state \<^verbatim>\<open>main\<close> reaches with a camera that reports 1920 by 1080 at 30
  frames a second and whose \<^verbatim>\<open>grab\<close> fails.
\<close>

theorem update_frame_latch_failure_witness:
  "\<exists>s0 s'. main_startup (test_machine 1920 1080 (sconst 30) False True) = Inr s0 \<and>
     is_running s0 \<and> \<not> shd (grabbed (cap s0)) \<and>
     update_frame s0 = Inr s' \<and> \<not> is_running s' \<and>
     trace s' = trace s0 @ [Cap_grab, Fl_alert Camera_error_grab]"
proof -
  let ?m = "test_machine 1920 1080 (sconst 30) False True"
  obtain s0 where s0: "main_startup ?m = Inr s0"
    and a: "is_running s0" and b: "\<not> shd (grabbed (cap s0))"
    by (simp add: prog_defs)
  from update_frame_latch_failure [OF a b] s0 a b show ?thesis
    by blast
qed

subsection \<open>The tick that goes through\<close>

lemma update_frame_through:
  assumes "is_running s" and "shd (grabbed (cap s))" and "fst (shd (retrieved (cap s)))"
    and "update_frame s = Inr s'"
  shows "\<exists>es. trace s' = trace s @ es @ [Repeat_timeout (reciprocal (optimal_fps s))]"
    and "optimal_fps s' = optimal_fps s"
    and "optimal_width s' = optimal_width s" and "optimal_height s' = optimal_height s"
    and "cols (cached_frame s') = optimal_width s" and "rows (cached_frame s') = optimal_height s"
    and "is_running s'" and "window s' = window s"
  using assms
  by (auto simp: update_frame_def cap_grab_def cap_retrieve_def emit_def resize_def
      delete_fltk_img_def copyTo_def cvtColor_def Let_def split_beta
      split: if_splits sum.splits option.splits)

lemma detect_fps_constant_low:
  assumes "readback (cap s) CAP_PROP_FPS = sconst v" and "v \<le> 9"
  shows "optimal_fps (detect_fps s) = v"
proof -
  have "\<forall>j<length fps_candidates.
          \<not> \<bar>readback (cap s) CAP_PROP_FPS !! j - fps_candidates ! j\<bar> < 1"
    using assms by (simp add: fps_candidates_def less_Suc_eq all_conj_distrib)
  then show ?thesis
    using assms(1) by (simp add: detect_fps_fallback)
qed

lemma detect_fps_accept_positive:
  assumes "i < length fps_candidates"
    and "\<bar>readback (cap s) CAP_PROP_FPS !! i - fps_candidates ! i\<bar> < 1"
    and "\<forall>j<i. \<not> \<bar>readback (cap s) CAP_PROP_FPS !! j - fps_candidates ! j\<bar> < 1"
  shows "9 < optimal_fps (detect_fps s)"
proof -
  have "\<forall>c\<in>set fps_candidates. 10 \<le> c"
    by (simp add: fps_candidates_def)
  with assms(1) have "10 \<le> fps_candidates ! i"
    by (meson nth_mem)
  with assms(2) have "9 < readback (cap s) CAP_PROP_FPS !! i"
    by linarith
  then show ?thesis
    by (simp add: detect_fps_accept [OF assms])
qed

lemma update_frame_timeout:
  assumes "is_running s" and "shd (grabbed (cap s))" and "fst (shd (retrieved (cap s)))"
    and "update_frame s = Inr s'"
  shows "\<exists>es. trace s' = trace s @ es @
           [Repeat_timeout (if optimal_fps s = 0 then None else Some (1 / optimal_fps s))]"
  using update_frame_through(1) [OF assms] by (simp add: reciprocal_def)

text \<open>
  Claim C10. A tick that goes through ends by setting the next timeout to the quotient
  \<^verbatim>\<open>1.0 / optimal_fps\<close>, whatever \<open>optimal_fps\<close> is: no branch of \<^verbatim>\<open>update_frame\<close> looks
  at its sign, and at 0 the quotient has no finite value. The quotient is a positive,
  finite delay exactly when \<open>optimal_fps\<close> is positive. \<^verbatim>\<open>detect_fps\<close> gives a positive
  value (above 9) whenever it accepts a candidate, but not on its fallback path: a device
  that reports the same value of at most 9 to every request, such as 0 or a negative
  number, gets that value as \<open>optimal_fps\<close>.
\<close>

theorem tick_delay_is_unguarded_reciprocal:
  "(\<forall>s s'. is_running s \<and> shd (grabbed (cap s)) \<and> fst (shd (retrieved (cap s))) \<and>
       update_frame s = Inr s' \<longrightarrow>
       (\<exists>es. trace s' = trace s @ es @
          [Repeat_timeout (if optimal_fps s = 0 then None else Some (1 / optimal_fps s))]) \<and>
       optimal_fps s' = optimal_fps s) \<and>
   (\<forall>x :: real.
       (\<exists>d. (if x = 0 then None else Some (1 / x)) = Some d \<and> 0 < d) \<longleftrightarrow> 0 < x) \<and>
   (\<forall>s i. i < length fps_candidates \<and>
       \<bar>readback (cap s) CAP_PROP_FPS !! i - fps_candidates ! i\<bar> < 1 \<and>
       (\<forall>j<i. \<not> \<bar>readback (cap s) CAP_PROP_FPS !! j - fps_candidates ! j\<bar> < 1) \<longrightarrow>
       0 < optimal_fps (detect_fps s)) \<and>
   (\<forall>s v. readback (cap s) CAP_PROP_FPS = sconst v \<and> v \<le> 9 \<longrightarrow>
       optimal_fps (detect_fps s) = v)"
proof (intro conjI allI impI)
  fix s s' :: machine
  assume "is_running s \<and> shd (grabbed (cap s)) \<and> fst (shd (retrieved (cap s))) \<and>
       update_frame s = Inr s'"
  then show "\<exists>es. trace s' = trace s @ es @
          [Repeat_timeout (if optimal_fps s = 0 then None else Some (1 / optimal_fps s))]"
    and "optimal_fps s' = optimal_fps s"
    using update_frame_timeout update_frame_through(2) by blast+
next
  fix x :: real
  show "(\<exists>d. (if x = 0 then None else Some (1 / x)) = Some d \<and> 0 < d) \<longleftrightarrow> 0 < x"
    by auto
next
  fix s :: machine and i
  assume "i < length fps_candidates \<and>
       \<bar>readback (cap s) CAP_PROP_FPS !! i - fps_candidates ! i\<bar> < 1 \<and>
       (\<forall>j<i. \<not> \<bar>readback (cap s) CAP_PROP_FPS !! j - fps_candidates ! j\<bar> < 1)"
  then have "9 < optimal_fps (detect_fps s)"
    using detect_fps_accept_positive by blast
  then show "0 < optimal_fps (detect_fps s)" by simp
next
  fix s :: machine and v
  assume "readback (cap s) CAP_PROP_FPS = sconst v \<and> v \<le> 9"
  then show "optimal_fps (detect_fps s) = v"
    using detect_fps_constant_low by blast
qed

text \<open>
  The theorem at two cameras. One reports 0 frames a second whatever is requested: the
  prober ends with \<open>optimal_fps = 0\<close>, and the first tick of the program divides by it.
  One reports 30: the first tick sets the timeout to a thirtieth of a second.
\<close>

theorem tick_delay_is_unguarded_reciprocal_witness:
  "readback (cap (test_machine 1920 1080 (sconst 0) True True)) CAP_PROP_FPS = sconst 0 \<and>
   (0 :: real) \<le> 9 \<and>
   optimal_fps (detect_fps (test_machine 1920 1080 (sconst 0) True True)) = 0 \<and>
   (\<exists>s0 s' es. main_startup (test_machine 1920 1080 (sconst 0) True True) = Inr s0 \<and>
      is_running s0 \<and> shd (grabbed (cap s0)) \<and> fst (shd (retrieved (cap s0))) \<and>
      optimal_fps s0 = 0 \<and> update_frame s0 = Inr s' \<and>
      trace s' = trace s0 @ es @ [Repeat_timeout None]) \<and>
   (\<exists>s0 s' es. main_startup (test_machine 1920 1080 (sconst 30) True True) = Inr s0 \<and>
      is_running s0 \<and> shd (grabbed (cap s0)) \<and> fst (shd (retrieved (cap s0))) \<and>
      optimal_fps s0 = 30 \<and> update_frame s0 = Inr s' \<and>
      trace s' = trace s0 @ es @ [Repeat_timeout (Some (1 / 30))])"
proof -
  let ?z = "test_machine 1920 1080 (sconst 0) True True"
  let ?m = "test_machine 1920 1080 (sconst 30) True True"
  have a: "readback (cap ?z) CAP_PROP_FPS = sconst 0"
    by (simp add: test_machine_def test_camera_def app_initial_def)
  note tick = tick_delay_is_unguarded_reciprocal [THEN conjunct1, rule_format]
  note low = tick_delay_is_unguarded_reciprocal
    [THEN conjunct2, THEN conjunct2, THEN conjunct2, rule_format]
  from a have b: "optimal_fps (detect_fps ?z) = 0"
    by (intro low) simp
  obtain z0 where z0: "main_startup ?z = Inr z0" "is_running z0" "shd (grabbed (cap z0))"
    "fst (shd (retrieved (cap z0)))" "optimal_fps z0 = 0" "shown (window z0)"
    by (simp add: prog_defs)
  have "\<exists>s'. main [Tick] ?z = Inr s'"
    by (simp add: prog_defs)
  with z0 obtain z' where z': "update_frame z0 = Inr z'"
    by (auto simp: main_def split: sum.splits)
  from tick [of z0 z'] z0 z'
  obtain zs where zs: "trace z' = trace z0 @ zs @ [Repeat_timeout None]"
    by auto
  obtain m0 where m0: "main_startup ?m = Inr m0" "is_running m0" "shd (grabbed (cap m0))"
    "fst (shd (retrieved (cap m0)))" "optimal_fps m0 = 30" "shown (window m0)"
    by (simp add: prog_defs)
  have "\<exists>s'. main [Tick] ?m = Inr s'"
    by (simp add: prog_defs)
  with m0 obtain m' where m': "update_frame m0 = Inr m'"
    by (auto simp: main_def split: sum.splits)
  from tick [of m0 m'] m0 m'
  have "\<exists>es. trace m' = trace m0 @ es @
          [Repeat_timeout (if optimal_fps m0 = 0 then None else Some (1 / optimal_fps m0))]"
    by simp
  with m0 obtain ms where ms: "trace m' = trace m0 @ ms @ [Repeat_timeout (Some (1 / 30))]"
    by auto
  from z0 z' zs have A:
    "\<exists>s0 s' es. main_startup ?z = Inr s0 \<and>
      is_running s0 \<and> shd (grabbed (cap s0)) \<and> fst (shd (retrieved (cap s0))) \<and>
      optimal_fps s0 = 0 \<and> update_frame s0 = Inr s' \<and>
      trace s' = trace s0 @ es @ [Repeat_timeout None]"
    by blast
  from m0 m' ms have B:
    "\<exists>s0 s' es. main_startup ?m = Inr s0 \<and>
      is_running s0 \<and> shd (grabbed (cap s0)) \<and> fst (shd (retrieved (cap s0))) \<and>
      optimal_fps s0 = 30 \<and> update_frame s0 = Inr s' \<and>
      trace s' = trace s0 @ es @ [Repeat_timeout (Some (1 / 30))]"
    by blast
  from a b A B show ?thesis
    by simp
qed

subsection \<open>After the run loop has stopped\<close>

lemma update_frame_stopped: "\<not> is_running s \<Longrightarrow> update_frame s = Inr s"
  by (simp add: update_frame_def)

lemma screenshot_callback_keeps:
  "is_running (screenshot_callback s) = is_running s \<and>
   cap (screenshot_callback s) = cap s \<and>
   frame (screenshot_callback s) = frame s \<and>
   frame_rgb (screenshot_callback s) = frame_rgb s \<and>
   cached_frame (screenshot_callback s) = cached_frame s \<and>
   fltk_img (screenshot_callback s) = fltk_img s \<and>
   heap (screenshot_callback s) = heap s \<and>
   display_box (screenshot_callback s) = display_box s \<and>
   window (screenshot_callback s) = window s \<and>
   optimal_width (screenshot_callback s) = optimal_width s \<and>
   optimal_height (screenshot_callback s) = optimal_height s \<and>
   optimal_fps (screenshot_callback s) = optimal_fps s"
  by (simp add: screenshot_callback_def emit_def Let_def)

lemma screenshot_callback_pumps:
  "filter pumps (trace (screenshot_callback s)) = filter pumps (trace s)"
  by (simp add: screenshot_callback_def emit_def Let_def)

lemma run_stopped:
  "\<not> is_running s \<Longrightarrow> Close \<notin> set cbs \<Longrightarrow>
   \<exists>s'. run cbs s = Inr s' \<and> \<not> is_running s' \<and> cap s' = cap s \<and>
        frame s' = frame s \<and> frame_rgb s' = frame_rgb s \<and>
        cached_frame s' = cached_frame s \<and> window s' = window s \<and>
        filter pumps (trace s') = filter pumps (trace s)"
proof (induction cbs arbitrary: s)
  case Nil
  then show ?case by simp
next
  case (Cons c cbs)
  show ?case
  proof (cases "shown (window s)")
    case False
    with Cons.prems show ?thesis by simp
  next
    case True
    show ?thesis
    proof (cases c)
      case Tick
      with Cons True show ?thesis
        by (simp add: update_frame_stopped)
    next
      case Screenshot
      from Cons.prems have "\<not> is_running (screenshot_callback s)" "Close \<notin> set cbs"
        by (simp_all add: screenshot_callback_keeps)
      from Cons.IH [OF this] Screenshot True show ?thesis
        by (simp add: screenshot_callback_keeps screenshot_callback_pumps)
    next
      case Close
      with Cons.prems show ?thesis by simp
    qed
  qed
qed

text \<open>
  Claim C9. Once \<open>is_running\<close> is false, a tick returns at once and leaves the whole state,
  trace included, as it is. Through any further ticks and snapshot requests, as long as
  the user does not close the window, the loop keeps serving (it does not stop the
  program), \<open>is_running\<close> stays false, the device session and the three buffers stay
  untouched, no device call and no timeout is added to the trace, and the window stays
  as it is (shown).
\<close>

theorem stopped_stays_stopped:
  "\<not> is_running s \<longrightarrow>
     update_frame s = Inr s \<and>
     (\<forall>cbs. Close \<notin> set cbs \<longrightarrow>
        (\<exists>s'. run cbs s = Inr s' \<and> \<not> is_running s' \<and> cap s' = cap s \<and>
           frame s' = frame s \<and> frame_rgb s' = frame_rgb s \<and>
           cached_frame s' = cached_frame s \<and> window s' = window s \<and>
           filter pumps (trace s') = filter pumps (trace s)))"
  using update_frame_stopped run_stopped by blast

text \<open>
  The theorem at the state the program is in after the first tick of a camera whose
  \<^verbatim>\<open>grab\<close> fails, for two more ticks around a snapshot request.
\<close>

theorem stopped_stays_stopped_witness:
  "\<exists>s1 s'. main [Tick] (test_machine 1920 1080 (sconst 30) False True) = Inr s1 \<and>
     \<not> is_running s1 \<and> shown (window s1) \<and> Close \<notin> set [Tick, Screenshot, Tick] \<and>
     run [Tick, Screenshot, Tick] s1 = Inr s' \<and>
     \<not> is_running s' \<and> shown (window s') \<and> cached_frame s' = cached_frame s1 \<and>
     filter pumps (trace s') = filter pumps (trace s1)"
proof -
  let ?m = "test_machine 1920 1080 (sconst 30) False True"
  obtain s1 where s1: "main [Tick] ?m = Inr s1"
    and a: "\<not> is_running s1" and c: "shown (window s1)"
    by (simp add: prog_defs)
  have b: "Close \<notin> set [Tick, Screenshot, Tick]" by simp
  from stopped_stays_stopped [of s1] a b
  obtain s' where "run [Tick, Screenshot, Tick] s1 = Inr s'" "\<not> is_running s'"
    "window s' = window s1" "cached_frame s' = cached_frame s1"
    "filter pumps (trace s') = filter pumps (trace s1)"
    by blast
  with s1 a b c show ?thesis by auto
qed

subsection \<open>The size of the display buffer\<close>

lemma main_startup_size:
  "main_startup s = Inr s0 \<Longrightarrow>
   cols (cached_frame s0) = optimal_width s0 \<and> rows (cached_frame s0) = optimal_height s0"
  by (auto simp: main_startup_def Mat_create_def cap_set_def emit_def Let_def
      split: if_splits sum.splits)

lemma update_frame_size:
  assumes "update_frame s = Inr s'"
    and "cols (cached_frame s) = optimal_width s" and "rows (cached_frame s) = optimal_height s"
  shows "cols (cached_frame s') = optimal_width s \<and> rows (cached_frame s') = optimal_height s \<and>
         optimal_width s' = optimal_width s \<and> optimal_height s' = optimal_height s"
proof -
  consider (stopped) "\<not> is_running s"
    | (latch) "is_running s" "\<not> shd (grabbed (cap s))"
    | (decode) "is_running s" "shd (grabbed (cap s))" "\<not> fst (shd (retrieved (cap s)))"
    | (through) "is_running s" "shd (grabbed (cap s))" "fst (shd (retrieved (cap s)))"
    by blast
  then show ?thesis
  proof cases
    case stopped
    with assms show ?thesis by (simp add: update_frame_stopped)
  next
    case latch
    with assms show ?thesis by (auto simp: update_frame_grab_failed)
  next
    case decode
    with assms show ?thesis by (auto simp: update_frame_retrieve_failed)
  next
    case through
    with assms(1) show ?thesis
      using update_frame_through(3-6) by blast
  qed
qed

lemma window_close_callback_size:
  assumes "window_close_callback s = Inr s'"
  shows "cached_frame s' = cached_frame s \<and>
         optimal_width s' = optimal_width s \<and> optimal_height s' = optimal_height s"
  using assms
  by (auto simp: window_close_callback_def cap_release_def delete_fltk_img_def emit_def Let_def
      split: option.splits if_splits)

lemma dispatch_size:
  assumes "dispatch c s = Inr s'"
    and "cols (cached_frame s) = optimal_width s" and "rows (cached_frame s) = optimal_height s"
  shows "cols (cached_frame s') = optimal_width s \<and> rows (cached_frame s') = optimal_height s \<and>
         optimal_width s' = optimal_width s \<and> optimal_height s' = optimal_height s"
proof (cases c)
  case Tick
  with assms show ?thesis using update_frame_size by simp
next
  case Screenshot
  with assms show ?thesis using screenshot_callback_keeps [of s] by auto
next
  case Close
  with assms show ?thesis using window_close_callback_size [of s s'] by simp
qed

lemma run_size:
  "run cbs s = Inr s' \<Longrightarrow>
   cols (cached_frame s) = optimal_width s \<Longrightarrow> rows (cached_frame s) = optimal_height s \<Longrightarrow>
   cols (cached_frame s') = optimal_width s \<and> rows (cached_frame s') = optimal_height s \<and>
   optimal_width s' = optimal_width s \<and> optimal_height s' = optimal_height s"
proof (induction cbs arbitrary: s)
  case Nil
  then show ?case by simp
next
  case (Cons c cbs)
  show ?case
  proof (cases "shown (window s)")
    case False
    with Cons.prems show ?thesis by simp
  next
    case True
    with Cons.prems(1) obtain s1 where
      s1: "dispatch c s = Inr s1" and rest: "run cbs s1 = Inr s'"
      by (auto split: sum.splits)
    from dispatch_size [OF s1 Cons.prems(2,3)]
    have keep: "cols (cached_frame s1) = optimal_width s1" "rows (cached_frame s1) = optimal_height s1"
      "optimal_width s1 = optimal_width s" "optimal_height s1 = optimal_height s"
      by simp_all
    from Cons.IH [OF rest keep(1,2)] keep(3,4) show ?thesis by simp
  qed
qed

text \<open>
  Claim C8. When \<^verbatim>\<open>main\<close> reaches the event loop, \<open>cached_frame\<close> has \<open>optimal_width\<close>
  columns and \<open>optimal_height\<close> rows, and it has them after every callback the loop serves
  (ticks that go through, ticks that fail, snapshot requests, the close request), in any
  order and number, while the negotiated width and height themselves never change.
\<close>

theorem display_buffer_has_negotiated_size:
  "main_startup s = Inr s0 \<longrightarrow>
     cols (cached_frame s0) = optimal_width s0 \<and> rows (cached_frame s0) = optimal_height s0 \<and>
     (\<forall>cbs s'. run cbs s0 = Inr s' \<longrightarrow>
        cols (cached_frame s') = optimal_width s' \<and> rows (cached_frame s') = optimal_height s' \<and>
        optimal_width s' = optimal_width s0 \<and> optimal_height s' = optimal_height s0)"
proof (intro impI conjI allI)
  assume st: "main_startup s = Inr s0"
  from main_startup_size [OF st]
  show c0: "cols (cached_frame s0) = optimal_width s0"
    and r0: "rows (cached_frame s0) = optimal_height s0"
    by simp_all
  fix cbs s'
  assume "run cbs s0 = Inr s'"
  from run_size [OF this c0 r0]
  show "cols (cached_frame s') = optimal_width s'" and "rows (cached_frame s') = optimal_height s'"
    and "optimal_width s' = optimal_width s0" and "optimal_height s' = optimal_height s0"
    by simp_all
qed

text \<open>
  The theorem at a camera that reports 1920 by 1080 at 30 frames a second and delivers
  640 by 480 frames, through a tick, a snapshot and another tick.
\<close>

theorem display_buffer_has_negotiated_size_witness:
  "\<exists>s0 s'. main_startup (test_machine 1920 1080 (sconst 30) True True) = Inr s0 \<and>
     run [Tick, Screenshot, Tick] s0 = Inr s' \<and>
     optimal_width s0 = 1920 \<and> optimal_height s0 = 1080 \<and>
     cols (cached_frame s') = 1920 \<and> rows (cached_frame s') = 1080"
proof -
  let ?m = "test_machine 1920 1080 (sconst 30) True True"
  obtain s0 where s0: "main_startup ?m = Inr s0"
    and o: "optimal_width s0 = 1920" "optimal_height s0 = 1080"
    by (simp add: prog_defs)
  have "\<exists>s'. main [Tick, Screenshot, Tick] ?m = Inr s'"
    by (simp add: prog_defs)
  with s0 obtain s' where s': "run [Tick, Screenshot, Tick] s0 = Inr s'"
    by (auto simp: main_def)
  from display_buffer_has_negotiated_size [of ?m s0] s0 s' o
  have "cols (cached_frame s') = 1920 \<and> rows (cached_frame s') = 1080"
    by metis
  with s0 s' o show ?thesis by blast
qed

section \<open>Properties of the Snapshot Exporter\<close>

subsection \<open>The file name\<close>

lemma digit_value_digit_char: "d < 10 \<Longrightarrow> digit_value (digit_char d) = d"
proof -
  assume "d < 10"
  then have "d \<in> {0, 1, 2, 3, 4, 5, 6, 7, 8, 9}" by auto
  then show ?thesis
    by (auto simp: digit_value_def digit_char_def)
qed

lemma decimal_value_snoc:
  "decimal_value (cs @ [c]) = 10 * decimal_value cs + digit_value c"
  by (simp add: decimal_value_def)

lemma decimal_value_to_string_nat: "decimal_value (to_string_nat n) = n"
proof (induction n rule: to_string_nat.induct)
  case (1 n)
  show ?case
  proof (cases "n < 10")
    case True
    then show ?thesis
      by (subst to_string_nat.simps) (simp add: decimal_value_def digit_value_digit_char)
  next
    case False
    with "1" have "decimal_value (to_string_nat (n div 10)) = n div 10" by simp
    with False show ?thesis
      by (subst to_string_nat.simps) (simp add: decimal_value_snoc digit_value_digit_char)
  qed
qed

lemma decimal_value_to_string: "0 \<le> t \<Longrightarrow> int (decimal_value (to_string t)) = t"
  by (simp add: to_string_def decimal_value_to_string_nat)

subsection \<open>The export\<close>

lemma screenshot_callback_nonempty:
  assumes "\<not> Mat_empty (cached_frame s)"
  shows "screenshot_callback s =
     s\<lparr>clock := stl (clock s), imwrite_ok := stl (imwrite_ok s),
       trace := trace s @
         [Clock_now,
          Imwrite (''screenshot_'' @ to_string (shd (clock s)) @ ''.png'') (cvtColor (cached_frame s))] @
         (if shd (imwrite_ok s)
          then [Fl_message_title, Fl_message (''screenshot_'' @ to_string (shd (clock s)) @ ''.png'')]
          else [Fl_alert Screenshot_failed_not_saved])\<rparr>"
  using assms by (simp add: screenshot_callback_def emit_def Let_def)

lemma screenshot_callback_empty:
  assumes "Mat_empty (cached_frame s)"
  shows "screenshot_callback s = s\<lparr>trace := trace s @ [Fl_alert Screenshot_failed_no_image]\<rparr>"
  using assms by (simp add: screenshot_callback_def emit_def)

lemma cvtColor_channels:
  "cvtColor (m :: Mat) =
     \<lparr>rows = rows m, cols = cols m,
      data = map_option (\<lambda>f i. (snd (snd (f i)), fst (snd (f i)), fst (f i))) (data m)\<rparr>"
proof -
  have "swap_rb \<circ> f = (\<lambda>i. (snd (snd (f i)), fst (snd (f i)), fst (f i)))" for f :: "nat \<Rightarrow> pixel"
  proof (rule ext)
    fix i
    show "(swap_rb \<circ> f) i = (snd (snd (f i)), fst (snd (f i)), fst (f i))"
      by (cases "f i") simp
  qed
  then show ?thesis
    by (cases m) (simp add: cvtColor_def)
qed

text \<open>
  Claim C7. Invoked with a non-empty \<open>cached_frame\<close> when the clock reads \<open>T\<close>, the
  exporter reads the clock once and calls \<^verbatim>\<open>imwrite\<close> once, on the file
  \<^verbatim>\<open>screenshot_<T>.png\<close> (\<open>T\<close> in decimal) and on a matrix of the shape of \<open>cached_frame\<close>
  whose every pixel has the third, second and first channel of the pixel of
  \<open>cached_frame\<close> at the same place, in this order. If the write succeeds it shows the
  success dialog with exactly that file name; if it fails it shows the failure alert. In
  both cases it returns after that one attempt, and nothing else in the state changes.
\<close>

theorem screenshot_callback_writes_once:
  assumes "\<not> Mat_empty (cached_frame s)" and "shd (clock s) = T"
  shows "screenshot_callback s =
           s\<lparr>clock := stl (clock s), imwrite_ok := stl (imwrite_ok s),
             trace := trace s @
               [Clock_now,
                Imwrite (''screenshot_'' @ to_string T @ ''.png'')
                  \<lparr>rows = rows (cached_frame s), cols = cols (cached_frame s),
                   data = map_option (\<lambda>f i. (snd (snd (f i)), fst (snd (f i)), fst (f i)))
                            (data (cached_frame s))\<rparr>] @
               (if shd (imwrite_ok s)
                then [Fl_message_title, Fl_message (''screenshot_'' @ to_string T @ ''.png'')]
                else [Fl_alert Screenshot_failed_not_saved])\<rparr> \<and>
         (0 \<le> T \<longrightarrow> int (decimal_value (to_string T)) = T)"
  using assms
  by (simp add: screenshot_callback_nonempty cvtColor_channels decimal_value_to_string)

text \<open>
  The theorem after the first tick of a working camera, at time 1700000000: the buffer
  holds pixels (3, 2, 1) and the file gets pixels (1, 2, 3), once for a write that
  succeeds, once for a write that fails.
\<close>

theorem screenshot_callback_writes_once_witness:
  "\<exists>s1. main [Tick] (test_machine 1920 1080 (sconst 30) True True) = Inr s1 \<and>
     \<not> Mat_empty (cached_frame s1) \<and> shd (clock s1) = 1700000000 \<and>
     cached_frame s1 = \<lparr>rows = 1080, cols = 1920, data = Some (\<lambda>i. (3, 2, 1))\<rparr> \<and>
     trace (screenshot_callback s1) =
       trace s1 @
       [Clock_now,
        Imwrite ''screenshot_1700000000.png''
          \<lparr>rows = 1080, cols = 1920, data = Some (\<lambda>i. (1, 2, 3))\<rparr>,
        Fl_message_title,
        Fl_message ''screenshot_1700000000.png''] \<and>
     trace (screenshot_callback (s1\<lparr>imwrite_ok := sconst False\<rparr>)) =
       trace s1 @
       [Clock_now,
        Imwrite ''screenshot_1700000000.png''
          \<lparr>rows = 1080, cols = 1920, data = Some (\<lambda>i. (1, 2, 3))\<rparr>,
        Fl_alert Screenshot_failed_not_saved]"
proof -
  let ?m = "test_machine 1920 1080 (sconst 30) True True"
  obtain s1 where s1: "main [Tick] ?m = Inr s1"
    and a: "\<not> Mat_empty (cached_frame s1)" and b: "shd (clock s1) = 1700000000"
    and c: "shd (imwrite_ok s1)"
    and d: "cached_frame s1 = \<lparr>rows = 1080, cols = 1920, data = Some (\<lambda>i. (3, 2, 1))\<rparr>"
    by (simp add: prog_defs comp_def)
  let ?s2 = "s1\<lparr>imwrite_ok := sconst False\<rparr>"
  have a': "\<not> Mat_empty (cached_frame ?s2)" and b': "shd (clock ?s2) = 1700000000"
    using a b by simp_all
  from screenshot_callback_writes_once [OF a b] c d
  have "trace (screenshot_callback s1) =
       trace s1 @
       [Clock_now,
        Imwrite ''screenshot_1700000000.png''
          \<lparr>rows = 1080, cols = 1920, data = Some (\<lambda>i. (1, 2, 3))\<rparr>,
        Fl_message_title,
        Fl_message ''screenshot_1700000000.png'']"
    by (simp add: to_string_1700000000)
  moreover from screenshot_callback_writes_once [OF a' b'] d
  have "trace (screenshot_callback ?s2) =
       trace s1 @
       [Clock_now,
        Imwrite ''screenshot_1700000000.png''
          \<lparr>rows = 1080, cols = 1920, data = Some (\<lambda>i. (1, 2, 3))\<rparr>,
        Fl_alert Screenshot_failed_not_saved]"
    by (simp add: to_string_1700000000)
  ultimately show ?thesis using s1 a b d by blast
qed

subsection \<open>The guard\<close>

lemma main_startup_not_empty:
  assumes "main_startup s = Inr s0" and "optimal_width s0 \<noteq> 0" and "optimal_height s0 \<noteq> 0"
  shows "\<not> Mat_empty (cached_frame s0)"
  using assms
  by (auto simp: main_startup_def Mat_create_def Mat_empty_def cap_set_def emit_def Let_def
      split: if_splits sum.splits)

lemma cap_get_keeps_resolution:
  "optimal_width (snd (cap_get p s)) = optimal_width s \<and>
   optimal_height (snd (cap_get p s)) = optimal_height s"
  by (simp add: cap_get_def emit_def)

lemma cap_set_keeps_resolution:
  "optimal_width (cap_set p v s) = optimal_width s \<and>
   optimal_height (cap_set p v s) = optimal_height s"
  by (simp add: cap_set_def emit_def)

lemma detect_resolutions_loop_range:
  "detect_resolutions_loop cs s = Inr s' \<Longrightarrow>
   (optimal_width s', optimal_height s') \<in> set cs \<or>
   optimal_width s' = optimal_width s \<and> optimal_height s' = optimal_height s"
proof (induction cs arbitrary: s)
  case Nil
  then show ?case by simp
next
  case (Cons c cs)
  let ?s3 = "snd (cap_get CAP_PROP_FRAME_WIDTH
     (cap_set CAP_PROP_FRAME_HEIGHT (of_int (snd c)) (cap_set CAP_PROP_FRAME_WIDTH (of_int (fst c)) s)))"
  let ?s4 = "snd (cap_get CAP_PROP_FRAME_HEIGHT ?s3)"
  have keep: "optimal_width ?s4 = optimal_width s" "optimal_height ?s4 = optimal_height s"
    by (simp_all add: cap_get_keeps_resolution cap_set_keeps_resolution)
  from Cons.prems consider
      (accept) "s' = ?s4\<lparr>optimal_width := fst c, optimal_height := snd c\<rparr>"
    | (reject) "detect_resolutions_loop cs ?s4 = Inr s'"
    by (auto simp: Let_def split_beta split: option.splits if_splits)
  then show ?case
  proof cases
    case accept
    then show ?thesis by simp
  next
    case reject
    from Cons.IH [OF this] keep show ?thesis by auto
  qed
qed

lemma detect_fps_loop_keeps_resolution:
  "optimal_width (snd (detect_fps_loop cs s)) = optimal_width s \<and>
   optimal_height (snd (detect_fps_loop cs s)) = optimal_height s"
  by (induction cs arbitrary: s)
    (simp_all add: Let_def split_beta cap_get_keeps_resolution cap_set_keeps_resolution)

lemma detect_fps_keeps_resolution:
  "optimal_width (detect_fps s) = optimal_width s \<and>
   optimal_height (detect_fps s) = optimal_height s"
  using detect_fps_loop_keeps_resolution [of fps_candidates s]
  by (auto simp: detect_fps_def split_beta cap_get_keeps_resolution split: prod.splits bool.splits)

lemma main_startup_resolution:
  assumes "main_startup s = Inr s0"
  shows "(optimal_width s0, optimal_height s0) \<in> set resolutions \<or>
         optimal_width s0 = optimal_width s \<and> optimal_height s0 = optimal_height s"
proof -
  from assms obtain s2 where
    s2: "detect_resolutions (cap_open s) = Inr s2"
    and s0: "optimal_width s0 = optimal_width (detect_fps s2)"
      "optimal_height s0 = optimal_height (detect_fps s2)"
    by (auto simp: main_startup_def cap_set_def emit_def Let_def split: if_splits sum.splits)
  from detect_resolutions_loop_range [OF s2 [unfolded detect_resolutions_def]]
  have "(optimal_width s2, optimal_height s2) \<in> set resolutions \<or>
        optimal_width s2 = optimal_width s \<and> optimal_height s2 = optimal_height s"
    by (simp add: cap_open_def emit_def)
  with s0 show ?thesis
    by (simp add: detect_fps_keeps_resolution)
qed

lemma main_startup_never_empty:
  assumes "main_startup (app_initial dev wr clk jk il) = Inr s0"
  shows "\<not> Mat_empty (cached_frame s0)"
proof -
  from main_startup_resolution [OF assms]
  have "optimal_width s0 \<noteq> 0 \<and> optimal_height s0 \<noteq> 0"
    by (auto simp: resolutions_def app_initial_def)
  with assms show ?thesis
    by (simp add: main_startup_not_empty)
qed

text \<open>
  Claim C2, at a camera that opens and reports 1920 by 1080 at 30 frames a second, but
  whose \<^verbatim>\<open>grab\<close> fails. The guard of \<^verbatim>\<open>screenshot_callback\<close> does what the claim says of an
  empty buffer (lemma \<open>screenshot_callback_empty\<close>), but \<^verbatim>\<open>main\<close> has allocated
  \<open>cached_frame\<close> before the event loop starts, so with any device the buffer is not
  empty (lemma \<open>main_startup_never_empty\<close>) although no frame was ever rendered. A
  snapshot requested right after startup, or after the first tick has failed, writes the
  never-filled buffer to a file and reports success.
\<close>

theorem snapshot_before_first_frame_is_written:
  "map_sum id trace (main [Screenshot] (test_machine 1920 1080 (sconst 30) False True)) =
     Inr ([Cap_open] @
          resolution_probes [(3840, 2160), (2560, 1440), (1920, 1080)] @
          fps_probes [60, 50, 30] @
          [Cap_set CAP_PROP_AUTO_EXPOSURE 1, Cap_set CAP_PROP_AUTOFOCUS 1,
           Window_create 1920 1110, Box_create 1920 1080, Window_show, Add_timeout 0] @
          [Clock_now,
           Imwrite ''screenshot_1700000000.png''
             (cvtColor \<lparr>rows = 1080, cols = 1920, data = Some (\<lambda>i. (0, 0, 0))\<rparr>),
           Fl_message_title,
           Fl_message ''screenshot_1700000000.png'']) \<and>
   map_sum id trace (main [Tick, Screenshot] (test_machine 1920 1080 (sconst 30) False True)) =
     Inr ([Cap_open] @
          resolution_probes [(3840, 2160), (2560, 1440), (1920, 1080)] @
          fps_probes [60, 50, 30] @
          [Cap_set CAP_PROP_AUTO_EXPOSURE 1, Cap_set CAP_PROP_AUTOFOCUS 1,
           Window_create 1920 1110, Box_create 1920 1080, Window_show, Add_timeout 0] @
          [Cap_grab, Fl_alert Camera_error_grab] @
          [Clock_now,
           Imwrite ''screenshot_1700000000.png''
             (cvtColor \<lparr>rows = 1080, cols = 1920, data = Some (\<lambda>i. (0, 0, 0))\<rparr>),
           Fl_message_title,
           Fl_message ''screenshot_1700000000.png''])"
  by (simp add: prog_defs resolution_probes_def fps_probes_def to_string_1700000000)

section \<open>Properties of the Shell\<close>

text \<open>
  The callback by itself: it frees the image under a null check and leaves the pointer
  as it is, so applied twice to a state with an image it would free the image twice;
  applied to a state without an image it only releases the device and hides the window.
\<close>

lemma window_close_callback_twice:
  assumes "fltk_img s = Some p" and "window_close_callback s = Inr s'"
  shows "window_close_callback s' = Inl Double_free"
  using assms
  by (auto simp: window_close_callback_def cap_release_def delete_fltk_img_def emit_def Let_def
      split: if_splits)

lemma window_close_callback_no_image:
  assumes "fltk_img s = None"
  shows "window_close_callback s =
     Inr (s\<lparr>cap := (cap s)\<lparr>opened := False\<rparr>, window := (window s)\<lparr>shown := False\<rparr>,
            is_running := False, trace := trace s @ [Cap_release, Window_hide]\<rparr>)"
  using assms
  by (simp add: window_close_callback_def cap_release_def delete_fltk_img_def emit_def)





lemma delete_fltk_img_live:
  assumes "\<forall>p. fltk_img s = Some p \<longrightarrow> heap s p \<noteq> None"
  shows "delete_fltk_img s \<noteq> Inl Double_free"
  using assms by (auto simp: delete_fltk_img_def emit_def Let_def split: option.splits)



















end
